theory Spec2Isabelle
  imports Complex_Main "HOL-Library.Word"
begin

unbundle bit_operations_syntax

section \<open>Document ingestion (document.c)\<close>

subsection \<open>Error status\<close>

datatype QueryErrorCode =
    QUERY_OK
  | QUERY_EGENERIC
  | QUERY_EDUPFIELD
  | QUERY_EUNSUPPTYPE
  | QUERY_ENOTNUMERIC
  | QUERY_EGEOFORMAT
  | QUERY_ENODOC
  | QUERY_EINVAL

record QueryError =
  code :: QueryErrorCode
  detail :: "string option"

text \<open>
  Modelled from the spec: the setters of \<open>QueryError\<close> (query_error.h is not among the
  sources). Section 7 of the specification: a code that is already set is kept, the
  setter checks and skips. \<open>SetErrorFmt\<close> receives the message already formatted.
\<close>

definition ClearError :: "QueryError \<Rightarrow> QueryError" where
  "ClearError st = st\<lparr>code := QUERY_OK, detail := None\<rparr>"

definition SetCode :: "QueryError \<Rightarrow> QueryErrorCode \<Rightarrow> QueryError" where
  "SetCode st c = (if code st = QUERY_OK then st\<lparr>code := c\<rparr> else st)"

definition SetErrorFmt :: "QueryError \<Rightarrow> QueryErrorCode \<Rightarrow> string \<Rightarrow> QueryError" where
  "SetErrorFmt st c msg =
     (if code st = QUERY_OK then st\<lparr>code := c, detail := Some msg\<rparr> else st)"

subsection \<open>Schema and documents\<close>

text \<open>
  The field type bits are declared in field_spec.h, which is not among the sources: the
  model gives each of the four types a bit of its own. The theorems about every document
  do not depend on which bit a type has; the source tests the masks with \<open>&\<close>, the
  model with \<open>AND\<close>.
\<close>

type_synonym t_fieldTypes = "32 word"

definition INDEXFLD_T_FULLTEXT :: t_fieldTypes where "INDEXFLD_T_FULLTEXT = 1"
definition INDEXFLD_T_NUMERIC :: t_fieldTypes where "INDEXFLD_T_NUMERIC = 2"
definition INDEXFLD_T_GEO :: t_fieldTypes where "INDEXFLD_T_GEO = 4"
definition INDEXFLD_T_TAG :: t_fieldTypes where "INDEXFLD_T_TAG = 8"

datatype FieldSpecOption =
    FieldSpec_Sortable
  | FieldSpec_NoStemming
  | FieldSpec_NotIndexable
  | FieldSpec_Phonetics
  | FieldSpec_Dynamic

record FieldSpec =
  fs_name :: string
  fs_index :: nat
  fs_types :: t_fieldTypes
  fs_options :: "FieldSpecOption set"
  fs_sortIdx :: nat
  fs_ftId :: nat
  fs_tagSep :: char
  fs_tagFlags :: nat

text \<open>
  Modelled from the spec: \<open>FieldSpec::IsSortable\<close> and \<open>FieldSpec::IsIndexable\<close> test
  the option flags of the field (their bodies are in field_spec.h).
\<close>

definition IsSortable :: "FieldSpec \<Rightarrow> bool" where
  "IsSortable fs = (FieldSpec_Sortable \<in> fs_options fs)"

definition IsIndexable :: "FieldSpec \<Rightarrow> bool" where
  "IsIndexable fs = (FieldSpec_NotIndexable \<notin> fs_options fs)"



text \<open>\<open>fspecs.emplace_back(0)\<close>: the spec of a field that is not indexed has no name.\<close>

definition empty_FieldSpec :: FieldSpec where
  "empty_FieldSpec =
     \<lparr>fs_name = [], fs_index = 0, fs_types = 0, fs_options = {}, fs_sortIdx = 0, fs_ftId = 0,
      fs_tagSep = CHR '','', fs_tagFlags = 0\<rparr>"

text \<open>
  A document field: its text is absent when the \<open>RedisModuleString\<close> pointer is NULL.
\<close>

record DocumentField =
  df_name :: string
  df_text :: "string option"
  df_indexAs :: t_fieldTypes

text \<open>\<open>DocumentField::CheckIdx\<close> (document.h): the field is indexed as type \<open>t\<close>.\<close>

definition CheckIdx :: "DocumentField \<Rightarrow> t_fieldTypes \<Rightarrow> bool" where
  "CheckIdx f t = (df_indexAs f AND t \<noteq> 0)"

record Document =
  docKey :: string
  docId :: nat
  doc_fields :: "DocumentField list"

text \<open>
  The index schema. \<open>IndexSpec::GetField\<close> (spec.c) is not among the sources: the
  resolution of a field name is a component of the schema.
\<close>

record IndexSpec =
  GetField :: "string \<Rightarrow> FieldSpec option"
  sortables_len :: nat
  Index_StoreByteOffsets :: bool
  uniqueId :: "64 word"

subsection \<open>The ingest context\<close>

datatype actx_flag =
    ACTX_F_INDEXABLES
  | ACTX_F_SORTABLES
  | ACTX_F_NOBLOCK
  | ACTX_F_TEXTINDEXED
  | ACTX_F_OTHERINDEXED
  | ACTX_F_EMPTY

datatype doc_flag = Document_HasOnDemandDeletable

datatype add_option =
    DOCUMENT_ADD_REPLACE
  | DOCUMENT_ADD_PARTIAL
  | DOCUMENT_ADD_NOSAVE

text \<open>A slot of the sorting vector: empty, a number or a string.\<close>

datatype 'n RSSortValue = RS_NULL | RS_SORTABLE_NUM 'n | RS_SORTABLE_STR string

type_synonym 'n RSSortingVector = "'n RSSortValue list"

record 'n FieldIndexerData =
  numeric :: "'n option"
  geoSlon :: "string option"
  geoSlat :: "string option"
  tags :: "string list"

definition empty_FieldIndexerData :: "'n FieldIndexerData" where
  "empty_FieldIndexerData = \<lparr>numeric = None, geoSlon = None, geoSlat = None, tags = []\<rparr>"

text \<open>What the context does to its collaborators, in order.\<close>

datatype effect = DoReplyFinish | UnblockClient | IndexerAdd | DoneCallback | DeleteSelf

text \<open>
  The state flags, the document flags and the options are masks of one-bit macros
  (document.h); a mask is the set of the flags it holds, \<open>|=\<close> inserts and
  \<open>&= ~\<close> removes. \<open>fdatas\<close> is the reserved per-field storage, read by position.
\<close>

record 'n AddDocumentCtx =
  stateFlags :: "actx_flag set"
  status :: QueryError
  docFlags :: "doc_flag set"
  options :: "add_option set"
  fspecs :: "FieldSpec list"
  fdatas :: "nat \<Rightarrow> 'n FieldIndexerData"
  sv :: "'n RSSortingVector option"
  byteOffsets :: "(nat \<times> (nat \<times> nat \<times> nat) list) option"
  totalTokens :: nat
  lastOffset :: nat
  fwIdx :: "(nat \<times> string) list"
  doc :: Document
  effects :: "effect list"

subsection \<open>SetDocument\<close>

text \<open>The locals of \<open>SetDocument\<close> while it walks the fields.\<close>

record 'n SetDocument_locals =
  aCtx :: "'n AddDocumentCtx"
  dedupe :: "nat set"
  numTextIndexable :: nat
  hasTextFields :: bool
  hasOtherFields :: bool
  visited :: "DocumentField list"

definition msg_dupfield :: "string \<Rightarrow> string" where
  "msg_dupfield n = ''Tried to insert `'' @ n @ ''` twice''"

definition msg_unsupptype :: "string \<Rightarrow> string" where
  "msg_unsupptype n = ''Tried to index field '' @ n @ '' as type not specified in schema''"

text \<open>
  \<open>fs = sp->GetField(f->name)\<close> together with the guard \<open>!fs || !f->text\<close>: the
  schema field of a document field, when it has one and carries text.
\<close>

definition lookup_field :: "IndexSpec \<Rightarrow> DocumentField \<Rightarrow> FieldSpec option" where
  "lookup_field sp f = (if df_text f = None then None else GetField sp (df_name f))"

text \<open>
  The body of the second loop of \<open>SetDocument\<close> (lines 46 to 92) for the field \<open>f\<close>,
  \<open>rest\<close> being the fields after it. The result is \<open>False\<close> where the source returns
  false from inside the loop; \<open>visited\<close> then holds the whole field array as the call
  leaves it, the fields after the failing one untouched.
\<close>

definition SetDocument_field ::
  "IndexSpec \<Rightarrow> DocumentField \<Rightarrow> DocumentField list \<Rightarrow> 'n SetDocument_locals
     \<Rightarrow> bool \<times> 'n SetDocument_locals"
where
  "SetDocument_field sp f rest st =
    (case lookup_field sp f of
      None \<Rightarrow>
        (True, st\<lparr>aCtx := (aCtx st)\<lparr>fspecs := fspecs (aCtx st) @ [empty_FieldSpec]\<rparr>,
                  visited := visited st @ [f]\<rparr>)
    | Some fs \<Rightarrow>
        (let c1 = (aCtx st)\<lparr>fspecs := fspecs (aCtx st) @ [fs]\<rparr> in
         if fs_index fs \<in> dedupe st then
           (False, st\<lparr>aCtx := c1\<lparr>status := SetErrorFmt (status c1) QUERY_EDUPFIELD
                                             (msg_dupfield (fs_name fs))\<rparr>,
                       visited := visited st @ f # rest\<rparr>)
         else
           (let c2 = (if IsSortable fs
                      then c1\<lparr>stateFlags := insert ACTX_F_SORTABLES (stateFlags c1)\<rparr>
                      else c1);
                d2 = insert (fs_index fs) (dedupe st)
            in
            if df_indexAs f \<noteq> 0 \<and> (df_indexAs f AND fs_types fs) \<noteq> df_indexAs f then
              (False, st\<lparr>aCtx := c2\<lparr>status := SetErrorFmt (status c2) QUERY_EUNSUPPTYPE
                                                (msg_unsupptype (fs_name fs))\<rparr>,
                          dedupe := d2,
                          visited := visited st @ f # rest\<rparr>)
            else
              (let f' = (if df_indexAs f = 0 then f\<lparr>df_indexAs := fs_types fs\<rparr> else f);
                   isText = (IsIndexable fs \<and> df_indexAs f' AND INDEXFLD_T_FULLTEXT \<noteq> 0);
                   isOther = (IsIndexable fs \<and> df_indexAs f' \<noteq> INDEXFLD_T_FULLTEXT);
                   c3 = (if IsIndexable fs \<and> CheckIdx f' INDEXFLD_T_GEO
                         then c2\<lparr>docFlags := {Document_HasOnDemandDeletable}\<rparr>
                         else c2)
               in
               (True, st\<lparr>aCtx := c3,
                         dedupe := d2,
                         numTextIndexable := numTextIndexable st + (if isText then 1 else 0),
                         hasTextFields := (hasTextFields st \<or> isText),
                         hasOtherFields := (hasOtherFields st \<or> isOther),
                         visited := visited st @ [f']\<rparr>)))))"

text \<open>The loop itself: it stops at the first field whose body returns false.\<close>

fun SetDocument_fields ::
  "IndexSpec \<Rightarrow> DocumentField list \<Rightarrow> 'n SetDocument_locals \<Rightarrow> bool \<times> 'n SetDocument_locals"
where
  "SetDocument_fields sp [] st = (True, st)"
| "SetDocument_fields sp (f # rest) st =
    (case SetDocument_field sp f rest st of
      (ok, st') \<Rightarrow> if ok then SetDocument_fields sp rest st' else (False, st'))"

text \<open>
  \<open>AddDocumentCtx::SetDocument\<close>, in the order of the source: the entry (lines 24 to
  43: the three flags are cleared, \<open>reserve\<close> changes no value, the tags of the first
  \<open>NumFields\<close> slots are emptied, the locals start at zero), the loop over the fields,
  and the exit (lines 95 to 126). The result holds the return value, the context and the
  caller's document \<open>d\<close> as the call leaves it (the loop writes the resolved
  \<open>indexAs\<close> into its fields); \<open>Document::Move\<close> stores it in the context.
\<close>

definition SetDocument_enter :: "'n AddDocumentCtx \<Rightarrow> Document \<Rightarrow> 'n SetDocument_locals" where
  "SetDocument_enter ctx d =
    \<lparr>aCtx = ctx\<lparr>stateFlags :=
                    stateFlags ctx - {ACTX_F_INDEXABLES} - {ACTX_F_TEXTINDEXED}
                      - {ACTX_F_OTHERINDEXED},
                  fdatas := (\<lambda>i. if i < length (doc_fields d)
                                  then (fdatas ctx i)\<lparr>tags := []\<rparr> else fdatas ctx i)\<rparr>,
     dedupe = {}, numTextIndexable = 0, hasTextFields = False, hasOtherFields = False,
     visited = []\<rparr>"

definition SetDocument_leave :: "IndexSpec \<Rightarrow> 'n SetDocument_locals \<Rightarrow> 'n AddDocumentCtx" where
  "SetDocument_leave sp st =
    (let c1 = aCtx st;
         c2 = (if hasTextFields st \<or> hasOtherFields st
               then c1\<lparr>stateFlags := insert ACTX_F_INDEXABLES (stateFlags c1)\<rparr>
               else c1\<lparr>stateFlags := stateFlags c1 - {ACTX_F_INDEXABLES}\<rparr>);
         c3 = (if \<not> hasTextFields st
               then c2\<lparr>stateFlags := insert ACTX_F_TEXTINDEXED (stateFlags c2)\<rparr>
               else c2\<lparr>stateFlags := stateFlags c2 - {ACTX_F_TEXTINDEXED}\<rparr>);
         c4 = (if \<not> hasOtherFields st
               then c3\<lparr>stateFlags := insert ACTX_F_OTHERINDEXED (stateFlags c3)\<rparr>
               else c3\<lparr>stateFlags := stateFlags c3 - {ACTX_F_OTHERINDEXED}\<rparr>);
         c5 = (if ACTX_F_SORTABLES \<in> stateFlags c4 \<and> sv c4 = None
               then c4\<lparr>sv := Some (replicate (sortables_len sp) RS_NULL)\<rparr>
               else c4);
         empty = (sv c5 = None \<and> \<not> hasTextFields st \<and> \<not> hasOtherFields st);
         c6 = (if empty
               then c5\<lparr>stateFlags := insert ACTX_F_EMPTY (stateFlags c5)\<rparr>
               else c5)
     in
     if DOCUMENT_ADD_NOSAVE \<notin> options c6 \<and> numTextIndexable st \<noteq> 0
        \<and> Index_StoreByteOffsets sp
     then c6\<lparr>byteOffsets := Some (numTextIndexable st, [])\<rparr>
     else c6)"

definition SetDocument ::
  "IndexSpec \<Rightarrow> Document \<Rightarrow> nat \<Rightarrow> 'n AddDocumentCtx \<Rightarrow> bool \<times> 'n AddDocumentCtx \<times> Document"
where
  "SetDocument sp d oldFieldCount ctx =
    (case SetDocument_fields sp (doc_fields d) (SetDocument_enter ctx d) of
      (ok, st) \<Rightarrow>
        if ok
        then (True, (SetDocument_leave sp st)\<lparr>doc := d\<lparr>doc_fields := visited st\<rparr>\<rparr>,
              d\<lparr>doc_fields := visited st\<rparr>)
        else (False, aCtx st, d\<lparr>doc_fields := visited st\<rparr>))"


subsection \<open>ReplaceMerge\<close>

text \<open>
  \<open>AddDocumentCtx::ReplaceMerge\<close>. \<open>Document::LoadSchemaFields\<close> reads the stored
  document from the host: \<open>loaded\<close> is the field array it leaves in \<open>doc\<close>, or
  \<open>None\<close> when it does not return \<open>REDISMODULE_OK\<close>. On success the context calls
  \<open>SetDocument\<close> on its own document a second time.
\<close>

definition ReplaceMerge ::
  "IndexSpec \<Rightarrow> DocumentField list option \<Rightarrow> 'n AddDocumentCtx \<Rightarrow> bool \<times> 'n AddDocumentCtx"
where
  "ReplaceMerge sp loaded ctx =
    (let oldFieldCount = length (doc_fields (doc ctx));
         c1 = ctx\<lparr>doc := (doc ctx)\<lparr>doc_fields := []\<rparr>\<rparr>
     in
     case loaded of
       None \<Rightarrow>
         (True, c1\<lparr>status := SetErrorFmt (status c1) QUERY_ENODOC
                                ''Could not load existing document'',
                    effects := effects c1 @ [DoneCallback, DeleteSelf]\<rparr>)
     | Some fs \<Rightarrow>
         (False, fst (snd (SetDocument sp ((doc c1)\<lparr>doc_fields := fs\<rparr>) oldFieldCount c1))))"


subsection \<open>The field preprocessors and AddToIndexes\<close>

text \<open>
  What the model cannot go on from: a call through a NULL pointer (\<open>sv->Put\<close> with no
  sort vector, the text of a field that has none) and \<open>fspecs[i]\<close> past the end.
\<close>

datatype crash = NullDeref | OutOfBounds


datatype tokenize_option = TOKENIZE_DEFAULT_OPTIONS | TOKENIZE_NOSTEM | TOKENIZE_PHONETICS

text \<open>
  The collaborators of the preprocessors, none of them among the sources:
  \<open>RedisModule_StringToDouble\<close> of the host (\<open>None\<close> for \<open>REDISMODULE_ERR\<close>), the
  document tokenizer (from the text, the options and its last offset so far to the
  tokens and its new last offset) and \<open>TagIndex::Tags\<close> (from separator, flags and text
  to the tags).
\<close>

record 'n collaborators =
  StringToDouble :: "string \<Rightarrow> 'n option"
  Tokenize :: "string \<Rightarrow> tokenize_option set \<Rightarrow> nat \<Rightarrow> string list \<times> nat"
  ParseTags :: "char \<Rightarrow> nat \<Rightarrow> string \<Rightarrow> string list"

text \<open>
  Modelled from the spec: \<open>RSSortingVector::Put\<close> (sortable.c is not among the sources).
  The sorting vector is a fixed-length array indexed by \<open>sortIdx\<close>, each slot a tagged
  value; \<open>Put\<close> stores the value in the slot, a string as the raw text (the callers
  pass a \<open>char *\<close>: the C string of the field). What a write past the end does is not
  modelled: it leaves the vector as it is.
\<close>

definition Put :: "'n RSSortingVector \<Rightarrow> nat \<Rightarrow> 'n RSSortValue \<Rightarrow> 'n RSSortingVector" where
  "Put v idx x = v[idx := x]"

text \<open>
  A C string: the bytes before the first NUL. \<open>strpbrk c accept\<close> is the position of
  the first byte of \<open>c\<close> that occurs in \<open>accept\<close>.
\<close>

definition c_str :: "string \<Rightarrow> string" where
  "c_str s = takeWhile (\<lambda>c. c \<noteq> CHR 0x00) s"

definition strpbrk :: "string \<Rightarrow> string \<Rightarrow> nat option" where
  "strpbrk c accept =
     (if \<exists>x \<in> set c. x \<in> set accept
      then Some (length (takeWhile (\<lambda>x. x \<notin> set accept) c)) else None)"

text \<open>
  The preprocessors take the context, the position \<open>i\<close> of the field and of its
  \<open>FieldIndexerData\<close> (\<open>AddToIndexes\<close> passes \<open>doc->fields[i]\<close>, \<open>&aCtx->fdatas[i]\<close> and
  \<open>&aCtx->status\<close>), and return what the source returns with the context as they leave
  it.
\<close>

text \<open>\<open>aCtx->sv->Put(idx, x)\<close>: a call through the pointer \<open>sv\<close>.\<close>

definition sv_Put ::
  "'n AddDocumentCtx \<Rightarrow> nat \<Rightarrow> 'n RSSortValue \<Rightarrow> crash + 'n AddDocumentCtx" where
  "sv_Put ctx idx x =
    (case sv ctx of
      None \<Rightarrow> Inl NullDeref
    | Some v \<Rightarrow> Inr (ctx\<lparr>sv := Some (Put v idx x)\<rparr>))"



definition NumericPreprocessor ::
  "FieldSpec \<Rightarrow> 'n collaborators \<Rightarrow> nat \<Rightarrow> 'n AddDocumentCtx
     \<Rightarrow> crash + (bool \<times> 'n AddDocumentCtx)"
where
  "NumericPreprocessor fs h i ctx =
    (case df_text (doc_fields (doc ctx) ! i) of
      None \<Rightarrow> Inl NullDeref
    | Some t \<Rightarrow>
        (case StringToDouble h t of
          None \<Rightarrow> Inr (False, ctx\<lparr>status := SetCode (status ctx) QUERY_ENOTNUMERIC\<rparr>)
        | Some x \<Rightarrow>
            (let c1 = ctx\<lparr>fdatas := (fdatas ctx)(i := (fdatas ctx i)\<lparr>numeric := Some x\<rparr>)\<rparr>
             in
             if IsSortable fs then
               (case sv_Put c1 (fs_sortIdx fs) (RS_SORTABLE_NUM x) of
                 Inl e \<Rightarrow> Inl e
               | Inr c2 \<Rightarrow> Inr (True, c2))
             else Inr (True, c1))))"

text \<open>
  \<open>GeoPreprocessor\<close> writes a NUL over the delimiter in the field's own buffer;
  \<open>geoSlon\<close> and \<open>geoSlat\<close> point into it, and are modelled by the C strings they
  point at.
\<close>

definition GeoPreprocessor ::
  "FieldSpec \<Rightarrow> 'n collaborators \<Rightarrow> nat \<Rightarrow> 'n AddDocumentCtx
     \<Rightarrow> crash + (bool \<times> 'n AddDocumentCtx)"
where
  "GeoPreprocessor fs h i ctx =
    (case df_text (doc_fields (doc ctx) ! i) of
      None \<Rightarrow> Inl NullDeref
    | Some t \<Rightarrow>
        (case strpbrk (c_str t) '' ,'' of
          None \<Rightarrow> Inr (False, ctx\<lparr>status := SetCode (status ctx) QUERY_EGEOFORMAT\<rparr>)
        | Some pos \<Rightarrow>
            (let t' = t[pos := CHR 0x00];
                 ff = (doc_fields (doc ctx) ! i)\<lparr>df_text := Some t'\<rparr>;
                 c1 = ctx\<lparr>doc := (doc ctx)\<lparr>doc_fields := (doc_fields (doc ctx))[i := ff]\<rparr>\<rparr>
             in
             Inr (True,
                  c1\<lparr>fdatas := (fdatas c1)(i := (fdatas c1 i)
                         \<lparr>geoSlon := Some (c_str t'),
                          geoSlat := Some (c_str (drop (Suc pos) t'))\<rparr>)\<rparr>))))"







section \<open>The garbage collector (legacy_gc.c)\<close>

subsection \<open>The collector and its view of the numeric trees\<close>

datatype spec_status = SPEC_STATUS_OK | SPEC_STATUS_INVALID

text \<open>
  How a call ends: it returns, it throws \<open>Error\<close> with a message, it goes through a NULL
  pointer, or the host's script ends before the call does (see \<open>yield_round\<close>).
\<close>

datatype 'a outcome = Done 'a | Thrown string | Crashed | ScriptEnded

text \<open>
  A node of a numeric range tree, with the inverted index of its range when it has one;
  a tree with the nodes in the order in which \<open>NumericRangeTreeIterator\<close> yields them
  (numeric_index.h is not among the sources). Trees live in the host: a pointer to one is
  a number, and \<open>trees\<close> of the host is what the pointers point at.
\<close>

record NumericRangeNode =
  nr_range :: "nat option"

record NumericRangeTree =
  rt_revisionId :: nat
  rt_nodes :: "NumericRangeNode list"
  rt_numEntries :: "64 word"

type_synonym tree_heap = "nat \<Rightarrow> NumericRangeTree"

record NumericFieldGC =
  rt :: nat
  revisionId :: nat
  gcIterator :: "NumericRangeNode list"

record GCStats =
  totalCollected :: "64 word"
  numCycles :: "64 word"
  effectiveCycles :: "64 word"

text \<open>
  \<open>hz\<close> is a C \<open>float\<close>; the model computes the frequency in exact arithmetic and
  leaves the rounding of the machine out. The numbers of records and bytes that one pass
  collects are \<open>size_t\<close> counts of things in memory, modelled as \<open>nat\<close>.
\<close>

record GarbageCollector =
  hz :: rat
  keyName :: string
  stats :: GCStats
  rdbPossiblyLoading :: bool
  noLockMode :: bool
  specUniqueId :: "64 word"
  numericGC :: "NumericFieldGC list"

text \<open>
  \<open>GarbageCollector::GarbageCollector\<close>, on the storage \<open>this\<close> of the new object.
  The parameter \<open>specUniqueId\<close> hides the member of the same name, so
  \<open>specUniqueId = specUniqueId\<close> assigns the parameter to itself: the member keeps
  what the storage held.
\<close>

definition GarbageCollector_new ::
  "GarbageCollector \<Rightarrow> string \<Rightarrow> rat \<Rightarrow> 64 word \<Rightarrow> GarbageCollector" where
  "GarbageCollector_new this k initialHZ specUniqueId_arg =
     this\<lparr>hz := initialHZ,
          keyName := k,
          stats := \<lparr>totalCollected = 0, numCycles = 0, effectiveCycles = 0\<rparr>,
          rdbPossiblyLoading := True,
          noLockMode := False,
          numericGC := []\<rparr>"

text \<open>
  The statistics of the index that \<open>updateStats\<close> writes, and what one pass has done
  so far: the records it removed, the status it reports, the collector, the statistics of
  the index, the trees, and the number of calls of \<open>Repair\<close>.
\<close>

record SpecStats =
  numRecords :: "64 word"
  invertedSize :: "64 word"

record pass_state =
  totalRemoved :: nat
  pass_status :: spec_status
  collector :: GarbageCollector
  spec_stats :: SpecStats
  trees :: tree_heap
  repairs :: nat

definition updateStats :: "pass_state \<Rightarrow> nat \<Rightarrow> nat \<Rightarrow> pass_state" where
  "updateStats p recordsRemoved bytesCollected =
     p\<lparr>spec_stats := (spec_stats p)
          \<lparr>numRecords := numRecords (spec_stats p) - of_nat recordsRemoved,
           invertedSize := invertedSize (spec_stats p) - of_nat bytesCollected\<rparr>,
       collector := (collector p)
          \<lparr>stats := (stats (collector p))
             \<lparr>totalCollected := totalCollected (stats (collector p))
                                  + of_nat bytesCollected\<rparr>\<rparr>\<rparr>"

text \<open>
  One turn of a block repair loop as the host answers it: what \<open>Repair\<close> returns (the
  next block, the records and the bytes collected) and, for the yield after it, the
  \<open>uniqueId\<close> of the spec that \<open>Refresh\<close> finds, whether the index is opened again,
  whether the tag value is found again, and the revision of the numeric tree. A pass
  gets the list of the turns; when the list ends before the loop does, the model has no
  answer and ends with \<open>ScriptEnded\<close>.
\<close>

record yield_round =
  r_blockNum :: nat
  r_docsCollected :: nat
  r_bytesCollected :: nat
  r_uniqueId :: "64 word"
  r_reopened :: bool
  r_found :: bool
  r_revisionId :: nat

subsection \<open>CollectRandomTerm\<close>

text \<open>
  What the host shows \<open>CollectRandomTerm\<close>: the \<open>uniqueId\<close> of the spec under the key,
  the term that \<open>GetRandomTerm\<close> picks, whether its inverted index opens, and the turns
  of the repair loop.
\<close>

record term_host =
  th_uniqueId :: "64 word"
  th_term :: "string option"
  th_opened :: bool
  th_rounds :: "yield_round list"

text \<open>The \<open>do ... while (idx != NULL)\<close> loop of \<open>CollectRandomTerm\<close> (lines 87 to 114).\<close>

fun term_repair_loop :: "yield_round list \<Rightarrow> pass_state \<Rightarrow> pass_state outcome" where
  "term_repair_loop [] p = ScriptEnded"
| "term_repair_loop (r # rs) p =
    (let p1 = updateStats
                (p\<lparr>totalRemoved := totalRemoved p + r_docsCollected r,
                   repairs := Suc (repairs p)\<rparr>)
                (r_docsCollected r) (r_bytesCollected r)
     in
     if r_blockNum r = 0 then Done p1
     else if r_uniqueId r \<noteq> specUniqueId (collector p1)
       then Done (p1\<lparr>pass_status := SPEC_STATUS_INVALID\<rparr>)
     else if \<not> r_reopened r then Done p1
     else term_repair_loop rs p1)"

text \<open>
  \<open>GarbageCollector::CollectRandomTerm\<close>: \<open>totalRemoved\<close> of the result is what the
  call returns, on top of what the pass had removed before.
\<close>

definition CollectRandomTerm :: "term_host \<Rightarrow> pass_state \<Rightarrow> pass_state outcome" where
  "CollectRandomTerm host p =
    (if th_uniqueId host \<noteq> specUniqueId (collector p)
     then Done (p\<lparr>pass_status := SPEC_STATUS_INVALID\<rparr>)
     else
       (case th_term host of
         None \<Rightarrow> Done p
       | Some term \<Rightarrow>
           if th_opened host then term_repair_loop (th_rounds host) p else Done p))"

subsection \<open>The numeric trees\<close>

text \<open>
  The inner loop of \<open>NextGcNode\<close>: the iterator is advanced to the next node that
  carries a range; \<open>None\<close> when it ends first.
\<close>

fun next_with_range ::
  "NumericRangeNode list \<Rightarrow> (NumericRangeNode \<times> NumericRangeNode list) option" where
  "next_with_range [] = None"
| "next_with_range (n # ns) =
    (if nr_range n \<noteq> None then Some (n, ns) else next_with_range ns)"

text \<open>
  \<open>NextGcNode\<close>: the \<open>for (;;)\<close> loop with its flag \<open>runFromStart\<close>. The result is the
  node and the per-field state with its iterator advanced.
\<close>

function NextGcNode_from ::
  "tree_heap \<Rightarrow> bool \<Rightarrow> NumericFieldGC \<Rightarrow> (NumericRangeNode \<times> NumericFieldGC) outcome"
where
  "NextGcNode_from heap runFromStart g =
    (case next_with_range (gcIterator g) of
      Some (node, rest) \<Rightarrow> Done (node, g\<lparr>gcIterator := rest\<rparr>)
    | None \<Rightarrow>
        if runFromStart then Thrown ''Second iterator should return result''
        else NextGcNode_from heap True (g\<lparr>gcIterator := rt_nodes (heap (rt g))\<rparr>))"
  by pat_completeness auto
termination
  by (relation "measure (\<lambda>(heap, runFromStart, g). if runFromStart then 0 else 1)") auto

definition NextGcNode ::
  "tree_heap \<Rightarrow> NumericFieldGC \<Rightarrow> (NumericRangeNode \<times> NumericFieldGC) outcome" where
  "NextGcNode heap g = NextGcNode_from heap False g"

text \<open>\<open>NumericFieldGC::NumericFieldGC\<close>, for the tree at the pointer \<open>p\<close>.\<close>

definition NumericFieldGC_new :: "tree_heap \<Rightarrow> nat \<Rightarrow> NumericFieldGC" where
  "NumericFieldGC_new heap p =
     \<lparr>rt = p, revisionId = rt_revisionId (heap p), gcIterator = rt_nodes (heap p)\<rparr>"

text \<open>
  What the host shows \<open>CollectNumericIndex\<close>: the \<open>uniqueId\<close> of the spec, its numeric
  fields, the tree that \<open>OpenNumericIndex\<close> returns for a field (\<open>None\<close> for NULL), the
  value of \<open>rand()\<close> and the turns of the repair loop.
\<close>

record numeric_host =
  nh_uniqueId :: "64 word"
  nh_numericFields :: "string list"
  nh_open :: "string \<Rightarrow> nat option"
  nh_rand :: nat
  nh_rounds :: "yield_round list"

text \<open>
  The loop that fills the array again (lines 296 to 304), after \<open>FreeNumericGCArray\<close>
  has emptied it.
\<close>

fun append_numericGC ::
  "numeric_host \<Rightarrow> tree_heap \<Rightarrow> string list \<Rightarrow> NumericFieldGC list
     \<Rightarrow> NumericFieldGC list outcome"
where
  "append_numericGC host heap [] acc = Done acc"
| "append_numericGC host heap (f # fs) acc =
    (case nh_open host f of
      None \<Rightarrow> Thrown ''numeric index failed to open''
    | Some p \<Rightarrow> append_numericGC host heap fs (acc @ [NumericFieldGC_new heap p]))"

text \<open>
  Lines 292 to 305 of \<open>CollectNumericIndex\<close>: the cached array against the numeric
  fields of the spec.
\<close>

definition sync_numericGC ::
  "numeric_host \<Rightarrow> tree_heap \<Rightarrow> NumericFieldGC list \<Rightarrow> NumericFieldGC list outcome" where
  "sync_numericGC host heap cached =
    (if length (nh_numericFields host) \<noteq> length cached then
       (if length (nh_numericFields host) \<le> length cached
        then Thrown ''it is not possible to remove fields''
        else append_numericGC host heap (nh_numericFields host) [])
     else Done cached)"

text \<open>
  Lines 307 to 324: a field is picked at random, its tree is opened again, and the
  per-field state is made anew when the pointer or the revision has changed.
\<close>

definition pick_numericGC ::
  "numeric_host \<Rightarrow> tree_heap \<Rightarrow> NumericFieldGC list \<Rightarrow> (nat \<times> NumericFieldGC list) outcome"
where
  "pick_numericGC host heap arr =
    (let randomIndex = nh_rand host mod length arr;
         num_gc = arr ! randomIndex;
         opened = nh_open host (nh_numericFields host ! randomIndex)
     in
     if Some (rt num_gc) \<noteq> opened \<or> revisionId num_gc \<noteq> rt_revisionId (heap (rt num_gc))
     then
       (if Some (rt num_gc) = opened \<and> revisionId num_gc \<ge> rt_revisionId (heap (rt num_gc))
        then Thrown ''NumericRangeTree or revisionId are inncorrect''
        else
          (case opened of
            None \<Rightarrow> Crashed
          | Some p \<Rightarrow> Done (randomIndex, arr[randomIndex := NumericFieldGC_new heap p])))
     else Done (randomIndex, arr))"

text \<open>The repair loop of \<open>CollectNumericIndex\<close> (lines 327 to 348) on the tree \<open>t\<close>.\<close>

fun numeric_repair_loop ::
  "NumericFieldGC \<Rightarrow> yield_round list \<Rightarrow> pass_state \<Rightarrow> pass_state outcome" where
  "numeric_repair_loop num_gc [] p = ScriptEnded"
| "numeric_repair_loop num_gc (r # rs) p =
    (let t = rt num_gc;
         p1 = updateStats
                (p\<lparr>trees := (trees p)(t := (trees p t)
                       \<lparr>rt_numEntries := rt_numEntries (trees p t)
                                          - of_nat (r_docsCollected r)\<rparr>),
                   totalRemoved := totalRemoved p + r_docsCollected r,
                   repairs := Suc (repairs p)\<rparr>)
                (r_docsCollected r) (r_bytesCollected r)
     in
     if r_blockNum r = 0 then Done p1
     else if r_uniqueId r \<noteq> specUniqueId (collector p1)
       then Done (p1\<lparr>pass_status := SPEC_STATUS_INVALID\<rparr>)
     else if revisionId num_gc \<noteq> r_revisionId r then Done p1
     else numeric_repair_loop num_gc rs p1)"

text \<open>\<open>GarbageCollector::CollectNumericIndex\<close>.\<close>

definition CollectNumericIndex :: "numeric_host \<Rightarrow> pass_state \<Rightarrow> pass_state outcome" where
  "CollectNumericIndex host p =
    (if nh_uniqueId host \<noteq> specUniqueId (collector p)
     then Done (p\<lparr>pass_status := SPEC_STATUS_INVALID\<rparr>)
     else if nh_numericFields host = [] then Done p
     else
       (case sync_numericGC host (trees p) (numericGC (collector p)) of
         Thrown m \<Rightarrow> Thrown m
       | Crashed \<Rightarrow> Crashed
       | ScriptEnded \<Rightarrow> ScriptEnded
       | Done arr \<Rightarrow>
           (case pick_numericGC host (trees p) arr of
             Thrown m \<Rightarrow> Thrown m
           | Crashed \<Rightarrow> Crashed
           | ScriptEnded \<Rightarrow> ScriptEnded
           | Done (randomIndex, arr1) \<Rightarrow>
               (case NextGcNode (trees p) (arr1 ! randomIndex) of
                 Thrown m \<Rightarrow> Thrown m
               | Crashed \<Rightarrow> Crashed
               | ScriptEnded \<Rightarrow> ScriptEnded
               | Done (nextNode, num_gc) \<Rightarrow>
                   numeric_repair_loop num_gc (nh_rounds host)
                     (p\<lparr>collector := (collector p)
                          \<lparr>numericGC := arr1[randomIndex := num_gc]\<rparr>\<rparr>)))))"

subsection \<open>CollectTagIndex\<close>

text \<open>
  What the host shows \<open>CollectTagIndex\<close>: the \<open>uniqueId\<close> of the spec, the tag field
  that \<open>getRandomFieldByType\<close> picks, whether its index opens, the tag value that
  \<open>RandomKey\<close> picks, and the turns of the repair loop.
\<close>

record tag_host =
  gh_uniqueId :: "64 word"
  gh_field :: "string option"
  gh_opened :: bool
  gh_randomKey :: "string option"
  gh_rounds :: "yield_round list"

fun tag_repair_loop :: "yield_round list \<Rightarrow> pass_state \<Rightarrow> pass_state outcome" where
  "tag_repair_loop [] p = ScriptEnded"
| "tag_repair_loop (r # rs) p =
    (let p1 = updateStats
                (p\<lparr>totalRemoved := totalRemoved p + r_docsCollected r,
                   repairs := Suc (repairs p)\<rparr>)
                (r_docsCollected r) (r_bytesCollected r)
     in
     if r_blockNum r = 0 then Done p1
     else if r_uniqueId r \<noteq> specUniqueId (collector p1)
       then Done (p1\<lparr>pass_status := SPEC_STATUS_INVALID\<rparr>)
     else if \<not> r_reopened r then Done p1
     else if \<not> r_found r then Done p1
     else tag_repair_loop rs p1)"

definition CollectTagIndex :: "tag_host \<Rightarrow> pass_state \<Rightarrow> pass_state outcome" where
  "CollectTagIndex host p =
    (if gh_uniqueId host \<noteq> specUniqueId (collector p)
     then Done (p\<lparr>pass_status := SPEC_STATUS_INVALID\<rparr>)
     else
       (case gh_field host of
         None \<Rightarrow> Done p
       | Some field \<Rightarrow>
           if \<not> gh_opened host then Done p
           else
             (case gh_randomKey host of
               None \<Rightarrow> Done p
             | Some key \<Rightarrow> tag_repair_loop (gh_rounds host) p)))"

subsection \<open>The periodic callback\<close>

text \<open>
  The bounds \<open>GC_MAX_HZ\<close> and \<open>GC_MIN_HZ\<close> of the frequency are macros of gc.h, which is
  not among the sources: they are parameters of the model.
\<close>

record gc_bounds =
  GC_MAX_HZ :: rat
  GC_MIN_HZ :: rat

record gc_host =
  isRdbLoading :: bool
  for_term :: term_host
  for_numeric :: numeric_host
  for_tag :: tag_host

text \<open>
  Lines 380 to 382: the three collectors, one after the other, on the same status. What
  the pass removed is the sum of what they return.
\<close>

definition collect_all :: "gc_host \<Rightarrow> pass_state \<Rightarrow> pass_state outcome" where
  "collect_all host p =
    (case CollectRandomTerm (for_term host) p of
      Thrown m \<Rightarrow> Thrown m
    | Crashed \<Rightarrow> Crashed
    | ScriptEnded \<Rightarrow> ScriptEnded
    | Done p1 \<Rightarrow>
        (case CollectNumericIndex (for_numeric host) p1 of
          Thrown m \<Rightarrow> Thrown m
        | Crashed \<Rightarrow> Crashed
        | ScriptEnded \<Rightarrow> ScriptEnded
        | Done p2 \<Rightarrow> CollectTagIndex (for_tag host) p2))"

text \<open>
  \<open>GarbageCollector::PeriodicCallback\<close>, from the collector, the statistics of the index
  and the trees: the value it returns with the state it leaves.
\<close>

definition PeriodicCallback ::
  "gc_bounds \<Rightarrow> gc_host \<Rightarrow> GarbageCollector \<Rightarrow> SpecStats \<Rightarrow> tree_heap
     \<Rightarrow> (bool \<times> pass_state) outcome"
where
  "PeriodicCallback b host gc st heap =
    (let p0 = \<lparr>totalRemoved = 0, pass_status = SPEC_STATUS_OK, collector = gc,
               spec_stats = st, trees = heap, repairs = 0\<rparr>
     in
     if rdbPossiblyLoading gc \<and> isRdbLoading host
     then Done (pass_status p0 = SPEC_STATUS_OK, p0)
     else
       (case collect_all host (p0\<lparr>collector := gc\<lparr>rdbPossiblyLoading := False\<rparr>\<rparr>) of
         Thrown m \<Rightarrow> Thrown m
       | Crashed \<Rightarrow> Crashed
       | ScriptEnded \<Rightarrow> ScriptEnded
       | Done p \<Rightarrow>
           (let g1 = collector p;
                g2 = g1\<lparr>stats := (stats g1)
                        \<lparr>numCycles := numCycles (stats g1) + 1,
                         effectiveCycles := effectiveCycles (stats g1)
                                            + (if totalRemoved p > 0 then 1 else 0)\<rparr>\<rparr>;
                g3 = (if totalRemoved p > 0
                      then g2\<lparr>hz := min (hz g2 * (12 / 10)) (GC_MAX_HZ b)\<rparr>
                      else g2\<lparr>hz := max (hz g2 * (99 / 100)) (GC_MIN_HZ b)\<rparr>)
            in Done (pass_status p = SPEC_STATUS_OK, p\<lparr>collector := g3\<rparr>))))"

text \<open>\<open>GarbageCollector::OnDelete\<close>.\<close>

definition OnDelete :: "gc_bounds \<Rightarrow> GarbageCollector \<Rightarrow> GarbageCollector" where
  "OnDelete b gc = gc\<lparr>hz := min (hz gc * (15 / 10)) (GC_MAX_HZ b)\<rparr>"

subsection \<open>What the loop of SetDocument computes, field by field\<close>

text \<open>
  The statements about \<open>SetDocument\<close> speak of the document, not of the locals of the
  loop. \<open>accepts sp seen fs\<close>: no field of \<open>fs\<close> that carries text and has a schema field
  repeats a slot (of \<open>seen\<close> or of an earlier field), and none asks for an index type
  outside the types of its schema field.
\<close>

fun accepts :: "IndexSpec \<Rightarrow> nat set \<Rightarrow> DocumentField list \<Rightarrow> bool" where
  "accepts sp seen [] = True"
| "accepts sp seen (f # rest) =
    (case lookup_field sp f of
      None \<Rightarrow> accepts sp seen rest
    | Some fs \<Rightarrow>
        fs_index fs \<notin> seen
        \<and> (df_indexAs f = 0 \<or> df_indexAs f AND fs_types fs = df_indexAs f)
        \<and> accepts sp (insert (fs_index fs) seen) rest)"

text \<open>The field with its \<open>indexAs\<close> resolved: the types of the schema field when it was zero.\<close>

definition resolve_field :: "IndexSpec \<Rightarrow> DocumentField \<Rightarrow> DocumentField" where
  "resolve_field sp f =
    (case lookup_field sp f of
      None \<Rightarrow> f
    | Some fs \<Rightarrow> if df_indexAs f = 0 then f\<lparr>df_indexAs := fs_types fs\<rparr> else f)"

text \<open>
  A text field is one that is indexed (\<open>IsIndexable\<close>) with FULLTEXT among its resolved
  types; another field is one that is indexed with resolved types other than exactly
  FULLTEXT. A field can be both.
\<close>

definition is_text_field :: "IndexSpec \<Rightarrow> DocumentField \<Rightarrow> bool" where
  "is_text_field sp f =
    (case lookup_field sp f of
      None \<Rightarrow> False
    | Some fs \<Rightarrow> IsIndexable fs \<and> df_indexAs (resolve_field sp f) AND INDEXFLD_T_FULLTEXT \<noteq> 0)"

definition is_other_field :: "IndexSpec \<Rightarrow> DocumentField \<Rightarrow> bool" where
  "is_other_field sp f =
    (case lookup_field sp f of
      None \<Rightarrow> False
    | Some fs \<Rightarrow> IsIndexable fs \<and> df_indexAs (resolve_field sp f) \<noteq> INDEXFLD_T_FULLTEXT)"

definition is_sortable_field :: "IndexSpec \<Rightarrow> DocumentField \<Rightarrow> bool" where
  "is_sortable_field sp f =
    (case lookup_field sp f of None \<Rightarrow> False | Some fs \<Rightarrow> IsSortable fs)"

text \<open>The entry that the loop appends to \<open>fspecs\<close> for a field.\<close>

definition spec_of_field :: "IndexSpec \<Rightarrow> DocumentField \<Rightarrow> FieldSpec" where
  "spec_of_field sp f = (case lookup_field sp f of None \<Rightarrow> empty_FieldSpec | Some fs \<Rightarrow> fs)"

definition has_text :: "IndexSpec \<Rightarrow> Document \<Rightarrow> bool" where
  "has_text sp d = list_ex (is_text_field sp) (doc_fields d)"

definition has_other :: "IndexSpec \<Rightarrow> Document \<Rightarrow> bool" where
  "has_other sp d = list_ex (is_other_field sp) (doc_fields d)"

definition has_sortable :: "IndexSpec \<Rightarrow> Document \<Rightarrow> bool" where
  "has_sortable sp d = list_ex (is_sortable_field sp) (doc_fields d)"

definition resolve_doc :: "IndexSpec \<Rightarrow> Document \<Rightarrow> Document" where
  "resolve_doc sp d = d\<lparr>doc_fields := map (resolve_field sp) (doc_fields d)\<rparr>"

text \<open>The schema slots (\<open>FieldSpec.index\<close>) of the fields that reach the dedupe check.\<close>

definition matched_indices :: "IndexSpec \<Rightarrow> DocumentField list \<Rightarrow> nat list" where
  "matched_indices sp fs =
     concat (map (\<lambda>f. case lookup_field sp f of None \<Rightarrow> [] | Some s \<Rightarrow> [fs_index s]) fs)"


subsection \<open>A schema and a context for the concrete inputs\<close>

text \<open>
  The schema of the end-to-end scenarios of the specification, with a second text field
  that is not sortable: \<open>title\<close> (text, sortable), \<open>body\<close> (text), \<open>price\<close>
  (numeric, sortable) and \<open>loc\<close> (geo).
\<close>

definition ex_title :: FieldSpec where
  "ex_title = \<lparr>fs_name = ''title'', fs_index = 0, fs_types = INDEXFLD_T_FULLTEXT,
                fs_options = {FieldSpec_Sortable}, fs_sortIdx = 0, fs_ftId = 0,
                fs_tagSep = CHR '','', fs_tagFlags = 0\<rparr>"

definition ex_body :: FieldSpec where
  "ex_body = \<lparr>fs_name = ''body'', fs_index = 1, fs_types = INDEXFLD_T_FULLTEXT,
               fs_options = {}, fs_sortIdx = 0, fs_ftId = 1,
                fs_tagSep = CHR '','', fs_tagFlags = 0\<rparr>"

definition ex_price :: FieldSpec where
  "ex_price = \<lparr>fs_name = ''price'', fs_index = 2, fs_types = INDEXFLD_T_NUMERIC,
                fs_options = {FieldSpec_Sortable}, fs_sortIdx = 1, fs_ftId = 0,
                fs_tagSep = CHR '','', fs_tagFlags = 0\<rparr>"

definition ex_loc :: FieldSpec where
  "ex_loc = \<lparr>fs_name = ''loc'', fs_index = 3, fs_types = INDEXFLD_T_GEO,
              fs_options = {}, fs_sortIdx = 0, fs_ftId = 0,
                fs_tagSep = CHR '','', fs_tagFlags = 0\<rparr>"

definition ex_spec :: IndexSpec where
  "ex_spec =
    \<lparr>GetField = (\<lambda>n. if n = ''title'' then Some ex_title
                      else if n = ''body'' then Some ex_body
                      else if n = ''price'' then Some ex_price
                      else if n = ''loc'' then Some ex_loc
                      else None),
     sortables_len = 2, Index_StoreByteOffsets = False, uniqueId = 1\<rparr>"

definition ex_field :: "string \<Rightarrow> string \<Rightarrow> t_fieldTypes \<Rightarrow> DocumentField" where
  "ex_field n t ix = \<lparr>df_name = n, df_text = Some t, df_indexAs = ix\<rparr>"

definition ex_doc :: "DocumentField list \<Rightarrow> Document" where
  "ex_doc fs = \<lparr>docKey = ''doc1'', docId = 0, doc_fields = fs\<rparr>"

text \<open>
  The context as the constructor \<open>AddDocumentCtx::AddDocumentCtx\<close> has it when it calls
  \<open>SetDocument\<close> (lines 148 to 153): no flag, no error, no document.
\<close>

definition new_ctx :: "rat AddDocumentCtx" where
  "new_ctx =
    \<lparr>stateFlags = {}, status = \<lparr>code = QUERY_OK, detail = None\<rparr>, docFlags = {},
     options = {}, fspecs = [], fdatas = (\<lambda>i. empty_FieldIndexerData), sv = None,
     byteOffsets = None, totalTokens = 0, lastOffset = 0, fwIdx = [],
     doc = \<lparr>docKey = [], docId = 0, doc_fields = []\<rparr>, effects = []\<rparr>"

text \<open>The context after an ingest of a document with no field.\<close>

definition ctx_after_empty :: "rat AddDocumentCtx" where
  "ctx_after_empty = fst (snd (SetDocument ex_spec (ex_doc []) 0 new_ctx))"


text \<open>
  Collaborators for the concrete inputs: a number parser that knows two literals, a
  tokenizer that yields the text as one token, a tag parser that yields it as one tag.
\<close>

definition ex_host :: "rat collaborators" where
  "ex_host =
    \<lparr>StringToDouble = (\<lambda>s. if s = ''42.5'' then Some (85 / 2)
                            else if s = ''9.99'' then Some (999 / 100) else None),
     Tokenize = (\<lambda>t opts off. ([t], Suc off)),
     ParseTags = (\<lambda>sep flags t. [t])\<rparr>"

text \<open>The context that the constructor leaves for a document, when the schema accepts it.\<close>

definition ctx_of :: "DocumentField list \<Rightarrow> rat AddDocumentCtx" where
  "ctx_of fs = fst (snd (SetDocument ex_spec (ex_doc fs) 0 new_ctx))"


subsection \<open>A collector and hosts for the concrete inputs\<close>

text \<open>
  The storage in which the collector is constructed held the number 9 where the member
  \<open>specUniqueId\<close> lies; the collector is constructed for the spec with \<open>uniqueId\<close> 7.
\<close>

definition ex_storage :: GarbageCollector where
  "ex_storage =
    \<lparr>hz = 0, keyName = [],
     stats = \<lparr>totalCollected = 0, numCycles = 0, effectiveCycles = 0\<rparr>,
     rdbPossiblyLoading = False, noLockMode = False, specUniqueId = 9, numericGC = []\<rparr>"

definition ex_gc :: GarbageCollector where
  "ex_gc = GarbageCollector_new ex_storage ''idx'' 10 7"

definition ex_tree :: NumericRangeTree where
  "ex_tree = \<lparr>rt_revisionId = 0,
              rt_nodes = [\<lparr>nr_range = None\<rparr>, \<lparr>nr_range = Some 0\<rparr>],
              rt_numEntries = 5\<rparr>"

definition ex_heap :: tree_heap where
  "ex_heap = (\<lambda>p. ex_tree)"

definition ex_pass :: "GarbageCollector \<Rightarrow> pass_state" where
  "ex_pass gc =
    \<lparr>totalRemoved = 0, pass_status = SPEC_STATUS_OK, collector = gc,
     spec_stats = \<lparr>numRecords = 100, invertedSize = 1000\<rparr>, trees = ex_heap, repairs = 0\<rparr>"

text \<open>
  A turn in which \<open>Repair\<close> returns the next block \<open>b\<close> and collects \<open>d\<close> records, and
  the yield after it finds the spec with the \<open>uniqueId\<close> \<open>u\<close>.
\<close>

definition ex_round :: "nat \<Rightarrow> nat \<Rightarrow> 64 word \<Rightarrow> yield_round" where
  "ex_round b d u =
    \<lparr>r_blockNum = b, r_docsCollected = d, r_bytesCollected = 8 * d, r_uniqueId = u,
     r_reopened = True, r_found = True, r_revisionId = 0\<rparr>"

definition ex_term_host :: "64 word \<Rightarrow> yield_round list \<Rightarrow> term_host" where
  "ex_term_host u rs = \<lparr>th_uniqueId = u, th_term = Some ''hello'', th_opened = True,
                        th_rounds = rs\<rparr>"

definition ex_numeric_host :: "64 word \<Rightarrow> string list \<Rightarrow> numeric_host" where
  "ex_numeric_host u fs =
    \<lparr>nh_uniqueId = u, nh_numericFields = fs, nh_open = (\<lambda>f. Some 0), nh_rand = 0,
     nh_rounds = [ex_round 0 0 u]\<rparr>"

definition ex_tag_host :: "64 word \<Rightarrow> tag_host" where
  "ex_tag_host u = \<lparr>gh_uniqueId = u, gh_field = None, gh_opened = False,
                    gh_randomKey = None, gh_rounds = []\<rparr>"

definition ex_gc_host :: "64 word \<Rightarrow> yield_round list \<Rightarrow> gc_host" where
  "ex_gc_host u rs =
    \<lparr>isRdbLoading = False, for_term = ex_term_host u rs,
     for_numeric = ex_numeric_host u [], for_tag = ex_tag_host u\<rparr>"

definition ex_bounds :: gc_bounds where
  "ex_bounds = \<lparr>GC_MAX_HZ = 100, GC_MIN_HZ = 1\<rparr>"

section \<open>Properties of SetDocument\<close>

text \<open>The four ways through the body of the loop.\<close>

lemma field_skip:
  "lookup_field sp f = None \<Longrightarrow>
   SetDocument_field sp f rest st =
     (True, st\<lparr>aCtx := (aCtx st)\<lparr>fspecs := fspecs (aCtx st) @ [empty_FieldSpec]\<rparr>,
               visited := visited st @ [f]\<rparr>)"
  by (simp add: SetDocument_field_def)

lemma field_dup:
  "lookup_field sp f = Some fs \<Longrightarrow> fs_index fs \<in> dedupe st \<Longrightarrow>
   SetDocument_field sp f rest st =
     (False, st\<lparr>aCtx := (aCtx st)\<lparr>fspecs := fspecs (aCtx st) @ [fs],
                    status := SetErrorFmt (status (aCtx st)) QUERY_EDUPFIELD
                                (msg_dupfield (fs_name fs))\<rparr>,
                visited := visited st @ f # rest\<rparr>)"
  by (simp add: SetDocument_field_def)

lemma field_badtype:
  "lookup_field sp f = Some fs \<Longrightarrow> fs_index fs \<notin> dedupe st \<Longrightarrow>
   df_indexAs f \<noteq> 0 \<Longrightarrow> df_indexAs f AND fs_types fs \<noteq> df_indexAs f \<Longrightarrow>
   SetDocument_field sp f rest st =
     (False, st\<lparr>aCtx := (aCtx st)\<lparr>fspecs := fspecs (aCtx st) @ [fs],
                    stateFlags := (if IsSortable fs
                                   then insert ACTX_F_SORTABLES (stateFlags (aCtx st))
                                   else stateFlags (aCtx st)),
                    status := SetErrorFmt (status (aCtx st)) QUERY_EUNSUPPTYPE
                                (msg_unsupptype (fs_name fs))\<rparr>,
                dedupe := insert (fs_index fs) (dedupe st),
                visited := visited st @ f # rest\<rparr>)"
  by (simp add: SetDocument_field_def Let_def)

lemma field_pass:
  "lookup_field sp f = Some fs \<Longrightarrow> fs_index fs \<notin> dedupe st \<Longrightarrow>
   df_indexAs f = 0 \<or> df_indexAs f AND fs_types fs = df_indexAs f \<Longrightarrow>
   SetDocument_field sp f rest st =
     (True, st\<lparr>aCtx := (aCtx st)\<lparr>fspecs := fspecs (aCtx st) @ [fs],
                   stateFlags := (if IsSortable fs
                                  then insert ACTX_F_SORTABLES (stateFlags (aCtx st))
                                  else stateFlags (aCtx st)),
                   docFlags := (if IsIndexable fs \<and> CheckIdx (resolve_field sp f) INDEXFLD_T_GEO
                                then {Document_HasOnDemandDeletable}
                                else docFlags (aCtx st))\<rparr>,
               dedupe := insert (fs_index fs) (dedupe st),
               numTextIndexable := numTextIndexable st + (if is_text_field sp f then 1 else 0),
               hasTextFields := (hasTextFields st \<or> is_text_field sp f),
               hasOtherFields := (hasOtherFields st \<or> is_other_field sp f),
               visited := visited st @ [resolve_field sp f]\<rparr>)"
  by (auto simp: SetDocument_field_def Let_def resolve_field_def is_text_field_def
      is_other_field_def)


lemma field_cases [case_names skip dup badtype pass]:
  obtains "lookup_field sp f = None"
  | fs where "lookup_field sp f = Some fs" "fs_index fs \<in> dedupe (st :: 'n SetDocument_locals)"
  | fs where "lookup_field sp f = Some fs" "fs_index fs \<notin> dedupe st"
      "df_indexAs f \<noteq> 0" "df_indexAs f AND fs_types fs \<noteq> df_indexAs f"
  | fs where "lookup_field sp f = Some fs" "fs_index fs \<notin> dedupe st"
      "df_indexAs f = 0 \<or> df_indexAs f AND fs_types fs = df_indexAs f"
  by (cases "lookup_field sp f") blast+

lemma field_flags:
  "SetDocument_field sp f rest st = (ok, st') \<Longrightarrow>
     stateFlags (aCtx st) \<subseteq> stateFlags (aCtx st')
     \<and> stateFlags (aCtx st') \<subseteq> insert ACTX_F_SORTABLES (stateFlags (aCtx st))"
proof (cases rule: field_cases [where sp=sp and f=f and st=st])
  case skip
  then show "SetDocument_field sp f rest st = (ok, st') \<Longrightarrow> ?thesis"
    by (auto simp: field_skip)
next
  case (dup fs)
  then show "SetDocument_field sp f rest st = (ok, st') \<Longrightarrow> ?thesis"
    by (auto simp: field_dup)
next
  case (badtype fs)
  then show "SetDocument_field sp f rest st = (ok, st') \<Longrightarrow> ?thesis"
    by (auto simp: field_badtype split: if_splits)
next
  case (pass fs)
  then show "SetDocument_field sp f rest st = (ok, st') \<Longrightarrow> ?thesis"
    by (auto simp: field_pass split: if_splits)
qed

lemma fields_flags:
  "SetDocument_fields sp fs st = (ok, st') \<Longrightarrow>
     stateFlags (aCtx st) \<subseteq> stateFlags (aCtx st')
     \<and> stateFlags (aCtx st') \<subseteq> insert ACTX_F_SORTABLES (stateFlags (aCtx st))"
proof (induction fs arbitrary: st)
  case Nil
  then show ?case by auto
next
  case (Cons f rest)
  obtain b st1 where step: "SetDocument_field sp f rest st = (b, st1)"
    by (cases "SetDocument_field sp f rest st")
  note ff = field_flags [OF step]
  show ?case
  proof (cases b)
    case False
    with Cons.prems step have "st' = st1" by simp
    with ff show ?thesis by simp
  next
    case True
    with Cons.prems step have "SetDocument_fields sp rest st1 = (ok, st')" by simp
    from Cons.IH [OF this] ff show ?thesis by blast
  qed
qed

lemma fields_ok_iff:
  "fst (SetDocument_fields sp fs st) = accepts sp (dedupe st) fs"
proof (induction fs arbitrary: st)
  case Nil
  then show ?case by simp
next
  case (Cons f rest)
  show ?case
  proof (cases rule: field_cases [where sp=sp and f=f and st=st])
    case skip
    then show ?thesis using Cons.IH by (simp add: field_skip)
  next
    case (dup fs)
    then show ?thesis by (simp add: field_dup)
  next
    case (badtype fs)
    then show ?thesis by (simp add: field_badtype)
  next
    case (pass fs)
    then show ?thesis using Cons.IH by (simp add: field_pass)
  qed
qed

lemma fields_success:
  "SetDocument_fields sp fs st = (True, st') \<Longrightarrow>
     hasTextFields st' = (hasTextFields st \<or> list_ex (is_text_field sp) fs)
   \<and> hasOtherFields st' = (hasOtherFields st \<or> list_ex (is_other_field sp) fs)
   \<and> numTextIndexable st' = numTextIndexable st + length (filter (is_text_field sp) fs)
   \<and> visited st' = visited st @ map (resolve_field sp) fs
   \<and> stateFlags (aCtx st') =
        (if list_ex (is_sortable_field sp) fs
         then insert ACTX_F_SORTABLES (stateFlags (aCtx st)) else stateFlags (aCtx st))
   \<and> sv (aCtx st') = sv (aCtx st)
   \<and> options (aCtx st') = options (aCtx st)
   \<and> status (aCtx st') = status (aCtx st)
   \<and> fspecs (aCtx st') = fspecs (aCtx st) @ map (spec_of_field sp) fs"
proof (induction fs arbitrary: st)
  case Nil
  then show ?case by simp
next
  case (Cons f rest)
  show ?case
  proof (cases rule: field_cases [where sp=sp and f=f and st=st])
    case skip
    with Cons.prems have
      "SetDocument_fields sp rest
         (st\<lparr>aCtx := (aCtx st)\<lparr>fspecs := fspecs (aCtx st) @ [empty_FieldSpec]\<rparr>,
             visited := visited st @ [f]\<rparr>) = (True, st')"
      by (simp add: field_skip)
    from Cons.IH [OF this] skip show ?thesis
      by (simp add: is_text_field_def is_other_field_def is_sortable_field_def
          resolve_field_def spec_of_field_def)
  next
    case (dup fs)
    with Cons.prems show ?thesis by (simp add: field_dup)
  next
    case (badtype fs)
    with Cons.prems show ?thesis by (simp add: field_badtype)
  next
    case (pass fs)
    note step = field_pass [OF pass, of rest]
    from Cons.prems have tl: "SetDocument_fields sp rest (snd (SetDocument_field sp f rest st)) = (True, st')"
      by (simp add: step)
    from Cons.IH [OF tl] pass(1) show ?thesis
      unfolding step
      by (auto simp: is_sortable_field_def spec_of_field_def)
  qed
qed


lemma lookup_resolve [simp]: "lookup_field sp (resolve_field sp f) = lookup_field sp f"
  by (simp add: lookup_field_def resolve_field_def split: option.splits)

lemma resolve_idem [simp]: "resolve_field sp (resolve_field sp f) = resolve_field sp f"
  by (cases "lookup_field sp f")
     (auto simp: resolve_field_def lookup_field_def split: option.splits if_splits)

lemma is_text_resolve [simp]: "is_text_field sp (resolve_field sp f) = is_text_field sp f"
  by (simp add: is_text_field_def split: option.splits)

lemma is_other_resolve [simp]: "is_other_field sp (resolve_field sp f) = is_other_field sp f"
  by (simp add: is_other_field_def split: option.splits)

lemma is_sortable_resolve [simp]:
  "is_sortable_field sp (resolve_field sp f) = is_sortable_field sp f"
  by (simp add: is_sortable_field_def)

lemma accepts_resolve:
  "accepts sp seen fs \<Longrightarrow> accepts sp seen (map (resolve_field sp) fs)"
proof (induction fs arbitrary: seen)
  case Nil
  then show ?case by simp
next
  case (Cons f rest)
  show ?case
  proof (cases "lookup_field sp f")
    case None
    with Cons show ?thesis by simp
  next
    case (Some fs)
    with Cons.prems have a: "fs_index fs \<notin> seen"
      and t: "df_indexAs f = 0 \<or> df_indexAs f AND fs_types fs = df_indexAs f"
      and r: "accepts sp (insert (fs_index fs) seen) rest" by simp_all
    have "df_indexAs (resolve_field sp f) = 0
          \<or> df_indexAs (resolve_field sp f) AND fs_types fs = df_indexAs (resolve_field sp f)"
      using t Some by (auto simp: resolve_field_def)
    with a Cons.IH [OF r] Some show ?thesis by simp
  qed
qed

lemma SetDocument_ok_iff: "fst (SetDocument sp d n ctx) = accepts sp {} (doc_fields d)"
proof -
  have "dedupe (SetDocument_enter ctx d) = {}" by (simp add: SetDocument_enter_def)
  with fields_ok_iff [of sp "doc_fields d" "SetDocument_enter ctx d"]
  show ?thesis
    by (cases "SetDocument_fields sp (doc_fields d) (SetDocument_enter ctx d)")
       (auto simp: SetDocument_def)
qed

lemma leave_sv:
  "sv (SetDocument_leave sp st) =
     (if ACTX_F_SORTABLES \<in> stateFlags (aCtx st) \<and> sv (aCtx st) = None
      then Some (replicate (sortables_len sp) RS_NULL) else sv (aCtx st))"
  by (simp add: SetDocument_leave_def Let_def)

lemma leave_status: "status (SetDocument_leave sp st) = status (aCtx st)"
  by (simp add: SetDocument_leave_def Let_def)

lemma leave_flags:
  "stateFlags (SetDocument_leave sp st) =
     (stateFlags (aCtx st) - {ACTX_F_INDEXABLES, ACTX_F_TEXTINDEXED, ACTX_F_OTHERINDEXED})
     \<union> (if hasTextFields st \<or> hasOtherFields st then {ACTX_F_INDEXABLES} else {})
     \<union> (if hasTextFields st then {} else {ACTX_F_TEXTINDEXED})
     \<union> (if hasOtherFields st then {} else {ACTX_F_OTHERINDEXED})
     \<union> (if sv (aCtx st) = None \<and> ACTX_F_SORTABLES \<notin> stateFlags (aCtx st)
            \<and> \<not> hasTextFields st \<and> \<not> hasOtherFields st
        then {ACTX_F_EMPTY} else {})"
  apply (cases "hasTextFields st"; cases "hasOtherFields st";
     cases "sv (aCtx st) = None"; cases "ACTX_F_SORTABLES \<in> stateFlags (aCtx st)")
  apply (simp_all add: SetDocument_leave_def Let_def)
  apply auto
  done

lemma enter_flags:
  "stateFlags (aCtx (SetDocument_enter ctx d)) =
     stateFlags ctx - {ACTX_F_INDEXABLES, ACTX_F_TEXTINDEXED, ACTX_F_OTHERINDEXED}"
  by (auto simp: SetDocument_enter_def)

lemma enter_facts:
  "sv (aCtx (SetDocument_enter ctx d)) = sv ctx"
  "status (aCtx (SetDocument_enter ctx d)) = status ctx"
  "options (aCtx (SetDocument_enter ctx d)) = options ctx"
  "fspecs (aCtx (SetDocument_enter ctx d)) = fspecs ctx"
  "dedupe (SetDocument_enter ctx d) = {}"
  "hasTextFields (SetDocument_enter ctx d) = False"
  "hasOtherFields (SetDocument_enter ctx d) = False"
  "numTextIndexable (SetDocument_enter ctx d) = 0"
  "visited (SetDocument_enter ctx d) = []"
  by (simp_all add: SetDocument_enter_def)

lemma SetDocument_flags_kept:
  assumes "x \<in> stateFlags ctx"
    and "x \<notin> {ACTX_F_INDEXABLES, ACTX_F_TEXTINDEXED, ACTX_F_OTHERINDEXED}"
  shows "x \<in> stateFlags (fst (snd (SetDocument sp d n ctx)))"
proof -
  obtain ok st where loop:
    "SetDocument_fields sp (doc_fields d) (SetDocument_enter ctx d) = (ok, st)"
    by (cases "SetDocument_fields sp (doc_fields d) (SetDocument_enter ctx d)")
  from assms have "x \<in> stateFlags (aCtx (SetDocument_enter ctx d))"
    by (simp add: enter_flags)
  with fields_flags [OF loop] have in_st: "x \<in> stateFlags (aCtx st)" by blast
  show ?thesis
  proof (cases ok)
    case False
    with loop in_st show ?thesis by (simp add: SetDocument_def)
  next
    case True
    from in_st assms(2) have "x \<in> stateFlags (SetDocument_leave sp st)"
      unfolding leave_flags by blast
    with True loop show ?thesis by (simp add: SetDocument_def)
  qed
qed

lemma SetDocument_success:
  assumes "SetDocument sp d n ctx = (True, ctx', d')"
  shows "d' = resolve_doc sp d"
    and "stateFlags ctx' =
     (stateFlags ctx - {ACTX_F_INDEXABLES, ACTX_F_TEXTINDEXED, ACTX_F_OTHERINDEXED})
     \<union> (if has_sortable sp d then {ACTX_F_SORTABLES} else {})
     \<union> (if has_text sp d \<or> has_other sp d then {ACTX_F_INDEXABLES} else {})
     \<union> (if has_text sp d then {} else {ACTX_F_TEXTINDEXED})
     \<union> (if has_other sp d then {} else {ACTX_F_OTHERINDEXED})
     \<union> (if sv ctx = None \<and> ACTX_F_SORTABLES \<notin> stateFlags ctx \<and> \<not> has_sortable sp d
            \<and> \<not> has_text sp d \<and> \<not> has_other sp d
        then {ACTX_F_EMPTY} else {})"
    and "sv ctx' =
           (if (has_sortable sp d \<or> ACTX_F_SORTABLES \<in> stateFlags ctx) \<and> sv ctx = None
            then Some (replicate (sortables_len sp) RS_NULL) else sv ctx)"
    and "doc ctx' = d'"
    and "status ctx' = status ctx"
    and "fspecs ctx' = fspecs ctx @ map (spec_of_field sp) (doc_fields d)"
proof -
  obtain ok st where loop:
    "SetDocument_fields sp (doc_fields d) (SetDocument_enter ctx d) = (ok, st)"
    by (cases "SetDocument_fields sp (doc_fields d) (SetDocument_enter ctx d)")
  from assms loop have ok: "ok"
    by (cases ok) (simp_all add: SetDocument_def)
  from assms loop ok have c': "ctx' = (SetDocument_leave sp st)\<lparr>doc := d\<lparr>doc_fields := visited st\<rparr>\<rparr>"
    and d': "d' = d\<lparr>doc_fields := visited st\<rparr>"
    by (auto simp: SetDocument_def)
  note fs = fields_success [OF loop [unfolded eqTrueI [OF ok]], unfolded enter_facts enter_flags]
  from fs have ht: "hasTextFields st = has_text sp d"
    and ho: "hasOtherFields st = has_other sp d"
    and vis: "visited st = map (resolve_field sp) (doc_fields d)"
    and fl: "stateFlags (aCtx st) =
        (if has_sortable sp d
         then insert ACTX_F_SORTABLES (stateFlags ctx
               - {ACTX_F_INDEXABLES, ACTX_F_TEXTINDEXED, ACTX_F_OTHERINDEXED})
         else stateFlags ctx - {ACTX_F_INDEXABLES, ACTX_F_TEXTINDEXED, ACTX_F_OTHERINDEXED})"
    and svs: "sv (aCtx st) = sv ctx"
    and sts: "status (aCtx st) = status ctx"
    and fsp: "fspecs (aCtx st) = fspecs ctx @ map (spec_of_field sp) (doc_fields d)"
    by (simp_all add: has_text_def has_other_def has_sortable_def)
  have sf: "stateFlags ctx' = stateFlags (SetDocument_leave sp st)" by (simp add: c')
  show "d' = resolve_doc sp d" by (simp add: d' vis resolve_doc_def)
  show "doc ctx' = d'" by (simp add: c' d')
  show "status ctx' = status ctx" by (simp add: c' leave_status sts)
  show "fspecs ctx' = fspecs ctx @ map (spec_of_field sp) (doc_fields d)"
    by (simp add: c' SetDocument_leave_def Let_def fsp)
  show "sv ctx' =
           (if (has_sortable sp d \<or> ACTX_F_SORTABLES \<in> stateFlags ctx) \<and> sv ctx = None
            then Some (replicate (sortables_len sp) RS_NULL) else sv ctx)"
    by (simp add: c' leave_sv svs fl)
  show "stateFlags ctx' =
     (stateFlags ctx - {ACTX_F_INDEXABLES, ACTX_F_TEXTINDEXED, ACTX_F_OTHERINDEXED})
     \<union> (if has_sortable sp d then {ACTX_F_SORTABLES} else {})
     \<union> (if has_text sp d \<or> has_other sp d then {ACTX_F_INDEXABLES} else {})
     \<union> (if has_text sp d then {} else {ACTX_F_TEXTINDEXED})
     \<union> (if has_other sp d then {} else {ACTX_F_OTHERINDEXED})
     \<union> (if sv ctx = None \<and> ACTX_F_SORTABLES \<notin> stateFlags ctx \<and> \<not> has_sortable sp d
            \<and> \<not> has_text sp d \<and> \<not> has_other sp d
        then {ACTX_F_EMPTY} else {})"
    apply (subst sf)
    apply (simp only: leave_flags ht ho svs fl)
    apply (cases "has_sortable sp d"; cases "has_text sp d"; cases "has_other sp d";
        cases "sv ctx = None"; cases "ACTX_F_SORTABLES \<in> stateFlags ctx")
    apply simp_all
    done
qed

lemma matched_indices_simps [simp]:
  "matched_indices sp [] = []"
  "matched_indices sp (f # fs) =
     (case lookup_field sp f of None \<Rightarrow> [] | Some s \<Rightarrow> [fs_index s]) @ matched_indices sp fs"
  "matched_indices sp (xs @ ys) = matched_indices sp xs @ matched_indices sp ys"
  by (simp_all add: matched_indices_def)

lemma accepts_distinct:
  "accepts sp seen fs \<Longrightarrow>
     distinct (matched_indices sp fs) \<and> set (matched_indices sp fs) \<inter> seen = {}"
proof (induction fs arbitrary: seen)
  case Nil
  then show ?case by simp
next
  case (Cons f rest)
  show ?case
  proof (cases "lookup_field sp f")
    case None
    with Cons show ?thesis by simp
  next
    case (Some fs)
    with Cons.prems have a: "fs_index fs \<notin> seen"
      and r: "accepts sp (insert (fs_index fs) seen) rest" by simp_all
    from Cons.IH [OF r] a Some show ?thesis by auto
  qed
qed

lemma fields_prefix:
  "accepts sp (dedupe st) pre \<Longrightarrow>
     \<exists>st1. SetDocument_fields sp pre st = (True, st1)
         \<and> SetDocument_fields sp (pre @ xs) st = SetDocument_fields sp xs st1
         \<and> dedupe st1 = dedupe st \<union> set (matched_indices sp pre)"
proof (induction pre arbitrary: st)
  case Nil
  then show ?case by simp
next
  case (Cons f rest)
  show ?case
  proof (cases "lookup_field sp f")
    case None
    let ?st = "st\<lparr>aCtx := (aCtx st)\<lparr>fspecs := fspecs (aCtx st) @ [empty_FieldSpec]\<rparr>,
                  visited := visited st @ [f]\<rparr>"
    from None Cons.prems have "accepts sp (dedupe ?st) rest" by simp
    from Cons.IH [OF this] None show ?thesis
      by (simp add: field_skip)
  next
    case (Some fs)
    with Cons.prems have a: "fs_index fs \<notin> dedupe st"
      and t: "df_indexAs f = 0 \<or> df_indexAs f AND fs_types fs = df_indexAs f"
      and r: "accepts sp (insert (fs_index fs) (dedupe st)) rest" by simp_all
    note p1 = field_pass [OF Some a t, of rest]
    note p2 = field_pass [OF Some a t, of "rest @ xs"]
    from p1 have d1: "dedupe (snd (SetDocument_field sp f rest st)) = insert (fs_index fs) (dedupe st)"
      by simp
    from p1 p2 have same: "SetDocument_field sp f (rest @ xs) st = SetDocument_field sp f rest st"
      by simp
    from r d1 have "accepts sp (dedupe (snd (SetDocument_field sp f rest st))) rest" by simp
    from Cons.IH [OF this] obtain st1 where
      "SetDocument_fields sp rest (snd (SetDocument_field sp f rest st)) = (True, st1)"
      "SetDocument_fields sp (rest @ xs) (snd (SetDocument_field sp f rest st)) =
         SetDocument_fields sp xs st1"
      "dedupe st1 = dedupe (snd (SetDocument_field sp f rest st)) \<union> set (matched_indices sp rest)"
      by blast
    with p1 same d1 Some show ?thesis
      by (cases "SetDocument_field sp f rest st") auto
  qed
qed

lemma fields_failure_code:
  "SetDocument_fields sp fs st = (False, st') \<Longrightarrow> code (status (aCtx st)) = QUERY_OK \<Longrightarrow>
     code (status (aCtx st')) \<in> {QUERY_EDUPFIELD, QUERY_EUNSUPPTYPE}"
proof (induction fs arbitrary: st)
  case Nil
  then show ?case by simp
next
  case (Cons f rest)
  show ?case
  proof (cases rule: field_cases [where sp=sp and f=f and st=st])
    case skip
    with Cons.prems have
      "SetDocument_fields sp rest
         (st\<lparr>aCtx := (aCtx st)\<lparr>fspecs := fspecs (aCtx st) @ [empty_FieldSpec]\<rparr>,
             visited := visited st @ [f]\<rparr>) = (False, st')"
      by (simp add: field_skip)
    from Cons.IH [OF this] Cons.prems(2) show ?thesis by simp
  next
    case (dup fs)
    with Cons.prems show ?thesis by (auto simp: field_dup SetErrorFmt_def)
  next
    case (badtype fs)
    with Cons.prems show ?thesis by (auto simp: field_badtype SetErrorFmt_def)
  next
    case (pass fs)
    note step = field_pass [OF pass, of rest]
    from Cons.prems have tl:
      "SetDocument_fields sp rest (snd (SetDocument_field sp f rest st)) = (False, st')"
      by (simp add: step)
    have "code (status (aCtx (snd (SetDocument_field sp f rest st)))) = QUERY_OK"
      using Cons.prems(2) by (simp add: step)
    from Cons.IH [OF tl this] show ?thesis .
  qed
qed

lemma has_resolve [simp]:
  "has_text sp (resolve_doc sp d) = has_text sp d"
  "has_other sp (resolve_doc sp d) = has_other sp d"
  "has_sortable sp (resolve_doc sp d) = has_sortable sp d"
  by (simp_all add: has_text_def has_other_def has_sortable_def resolve_doc_def list_ex_iff)

lemma SetDocument_again:
  assumes "SetDocument sp d n ctx = (True, ctx', d')"
  shows "fst (SetDocument sp d' m ctx')"
    and "stateFlags (fst (snd (SetDocument sp d' m ctx'))) = stateFlags ctx'"
proof -
  note s1 = SetDocument_success [OF assms]
  from assms have "fst (SetDocument sp d n ctx)" by simp
  then have "accepts sp {} (doc_fields d)" by (simp add: SetDocument_ok_iff)
  then have "accepts sp {} (doc_fields d')"
    by (simp add: s1(1) resolve_doc_def accepts_resolve)
  then show ok2: "fst (SetDocument sp d' m ctx')" by (simp add: SetDocument_ok_iff)
  then obtain ctx2 d2 where c2: "SetDocument sp d' m ctx' = (True, ctx2, d2)"
    by (cases "SetDocument sp d' m ctx'") auto
  note s2 = SetDocument_success [OF c2]
  have "stateFlags ctx2 = stateFlags ctx'"
    apply (subst s2(2))
    apply (simp only: s1(1) has_resolve)
    apply (simp only: s1(2) s1(3))
    apply (cases "has_sortable sp d"; cases "has_text sp d"; cases "has_other sp d";
        cases "sv ctx = None"; cases "ACTX_F_SORTABLES \<in> stateFlags ctx")
    apply simp_all
    apply auto
    done
  with c2 show "stateFlags (fst (snd (SetDocument sp d' m ctx'))) = stateFlags ctx'" by simp
qed

text \<open>The rules that evaluate the model at a concrete input.\<close>

lemmas ex_defs = ex_spec_def ex_title_def ex_body_def ex_price_def ex_loc_def ex_field_def
  ex_doc_def new_ctx_def

lemmas SetDocument_eval = SetDocument_def SetDocument_enter_def SetDocument_leave_def
  SetDocument_field_def lookup_field_def Let_def IsSortable_def IsIndexable_def CheckIdx_def
  INDEXFLD_T_FULLTEXT_def INDEXFLD_T_NUMERIC_def INDEXFLD_T_GEO_def INDEXFLD_T_TAG_def
  SetErrorFmt_def fun_eq_iff empty_FieldIndexerData_def

lemmas field_eval = has_text_def has_other_def has_sortable_def is_text_field_def
  is_other_field_def is_sortable_field_def resolve_field_def resolve_doc_def
  matched_indices_def spec_of_field_def

lemma SetDocument_at_field:
  assumes dec: "doc_fields d = pre @ g # rest"
    and pre: "accepts sp {} pre"
  shows "\<exists>st1. SetDocument_fields sp pre (SetDocument_enter ctx d) = (True, st1)
           \<and> dedupe st1 = set (matched_indices sp pre)
           \<and> SetDocument sp d n ctx =
               (case SetDocument_field sp g rest st1 of
                  (ok, st2) \<Rightarrow>
                    if ok then SetDocument sp d n ctx
                    else (False, aCtx st2, d\<lparr>doc_fields := visited st2\<rparr>))"
proof -
  from pre have "accepts sp (dedupe (SetDocument_enter ctx d)) pre"
    by (simp add: enter_facts)
  from fields_prefix [OF this, of "g # rest"] obtain st1 where
    p: "SetDocument_fields sp pre (SetDocument_enter ctx d) = (True, st1)"
    and q: "SetDocument_fields sp (pre @ g # rest) (SetDocument_enter ctx d) =
         SetDocument_fields sp (g # rest) st1"
    and r: "dedupe st1 = dedupe (SetDocument_enter ctx d) \<union> set (matched_indices sp pre)"
    by blast
  obtain ok st2 where step: "SetDocument_field sp g rest st1 = (ok, st2)"
    by (cases "SetDocument_field sp g rest st1")
  have "SetDocument sp d n ctx =
      (if ok then SetDocument sp d n ctx
       else (False, aCtx st2, d\<lparr>doc_fields := visited st2\<rparr>))"
    by (cases ok) (simp_all add: SetDocument_def dec q step)
  with p r step show ?thesis by (simp add: enter_facts)
qed

lemma fields_success_more:
  "SetDocument_fields sp fs st = (True, st') \<Longrightarrow>
     visited st' = visited st @ map (resolve_field sp) fs
   \<and> stateFlags (aCtx st') =
        (if list_ex (is_sortable_field sp) fs
         then insert ACTX_F_SORTABLES (stateFlags (aCtx st)) else stateFlags (aCtx st))
   \<and> status (aCtx st') = status (aCtx st)
   \<and> fspecs (aCtx st') = fspecs (aCtx st) @ map (spec_of_field sp) fs"
  using fields_success [of sp fs st st'] by simp

lemma SetDocument_failure_code:
  assumes "\<not> fst (SetDocument sp d n ctx)" and "code (status ctx) = QUERY_OK"
  shows "code (status (fst (snd (SetDocument sp d n ctx))))
           \<in> {QUERY_EDUPFIELD, QUERY_EUNSUPPTYPE}"
proof -
  obtain ok st where loop:
    "SetDocument_fields sp (doc_fields d) (SetDocument_enter ctx d) = (ok, st)"
    by (cases "SetDocument_fields sp (doc_fields d) (SetDocument_enter ctx d)")
  with assms(1) have f: "\<not> ok" by (auto simp: SetDocument_def)
  with loop have l2: "SetDocument_fields sp (doc_fields d) (SetDocument_enter ctx d) = (False, st)"
    by simp
  from assms(2) have "code (status (aCtx (SetDocument_enter ctx d))) = QUERY_OK"
    by (simp add: enter_facts)
  from fields_failure_code [OF l2 this] loop f
  show ?thesis by (simp add: SetDocument_def)
qed

lemma accepts_types:
  "accepts sp seen fs \<Longrightarrow> f \<in> set fs \<Longrightarrow> lookup_field sp f = Some s \<Longrightarrow>
     df_indexAs f = 0 \<or> df_indexAs f AND fs_types s = df_indexAs f"
proof (induction fs arbitrary: seen)
  case Nil
  then show ?case by simp
next
  case (Cons g rest)
  show ?case
  proof (cases "f = g")
    case True
    with Cons.prems show ?thesis by simp
  next
    case False
    with Cons.prems have "f \<in> set rest" by simp
    moreover from Cons.prems(1) obtain seen' where "accepts sp seen' rest"
      by (cases "lookup_field sp g") auto
    ultimately show ?thesis using Cons.IH Cons.prems(3) by blast
  qed
qed

section \<open>Properties of the preprocessors and of AddToIndexes\<close>

lemma takeWhile_dropWhile_nil: "takeWhile P (dropWhile P xs) = []"
  by (induction xs) auto

lemma takeWhile_prefix:
  "\<forall>x \<in> set xs. P x \<Longrightarrow> takeWhile P (xs @ ys) = xs @ takeWhile P ys"
  by (induction xs) auto

lemma c_str_no_NUL: "CHR 0x00 \<notin> set (c_str t)"
  by (auto simp: c_str_def dest: set_takeWhileD)

lemma c_str_decompose: "t = c_str t @ dropWhile (\<lambda>c. c \<noteq> CHR 0x00) t"
  by (simp add: c_str_def)

lemma c_str_append:
  "CHR 0x00 \<notin> set xs \<Longrightarrow> c_str (xs @ ys) = xs @ c_str ys"
  unfolding c_str_def by (rule takeWhile_prefix) auto

lemma c_str_tail [simp]: "c_str (dropWhile (\<lambda>c. c \<noteq> CHR 0x00) t) = []"
  by (simp add: c_str_def takeWhile_dropWhile_nil)

lemma c_str_NUL [simp]: "c_str (CHR 0x00 # xs) = []"
  by (simp add: c_str_def)

lemma strpbrk_found:
  assumes "d \<in> set accept" and "\<forall>x \<in> set lon. x \<notin> set accept"
  shows "strpbrk (lon @ d # lat) accept = Some (length lon)"
proof -
  have "takeWhile (\<lambda>x. x \<notin> set accept) (lon @ d # lat) = lon"
    using assms(2) takeWhile_prefix [of lon "\<lambda>x. x \<notin> set accept" "d # lat"] assms(1)
    by simp
  with assms(1) show ?thesis by (auto simp: strpbrk_def)
qed

lemma strpbrk_none:
  "\<forall>x \<in> set c. x \<notin> set accept \<Longrightarrow> strpbrk c accept = None"
  by (auto simp: strpbrk_def)

lemma geo_split_buffer:
  assumes c: "c_str t = lon @ d # lat"
  shows "c_str (t[length lon := CHR 0x00]) = lon"
    and "c_str (drop (Suc (length lon)) (t[length lon := CHR 0x00])) = lat"
proof -
  let ?r = "dropWhile (\<lambda>c. c \<noteq> CHR 0x00) t"
  have t: "t = lon @ d # lat @ ?r"
    using c_str_decompose [of t] c by simp
  from c_str_no_NUL [of t] c have n1: "CHR 0x00 \<notin> set lon" and n2: "CHR 0x00 \<notin> set lat"
    by auto
  have u: "t[length lon := CHR 0x00] = lon @ CHR 0x00 # lat @ ?r"
    by (subst t) (simp add: list_update_append)
  show "c_str (t[length lon := CHR 0x00]) = lon"
    unfolding u using n1 by (simp add: c_str_append)
  show "c_str (drop (Suc (length lon)) (t[length lon := CHR 0x00])) = lat"
    unfolding u using n2 by (simp add: c_str_append)
qed

lemma ctx_of_loc:
  "ctx_of [ex_field ''loc'' t 0] =
     new_ctx\<lparr>stateFlags := {ACTX_F_INDEXABLES, ACTX_F_TEXTINDEXED},
             docFlags := {Document_HasOnDemandDeletable},
             fspecs := [ex_loc],
             doc := ex_doc [ex_field ''loc'' t INDEXFLD_T_GEO]\<rparr>"
  by (auto simp: ctx_of_def ex_defs SetDocument_eval)

lemma ctx_of_price:
  "ctx_of [ex_field ''price'' t 0] =
     new_ctx\<lparr>stateFlags := {ACTX_F_INDEXABLES, ACTX_F_TEXTINDEXED, ACTX_F_SORTABLES},
             fspecs := [ex_price],
             sv := Some [RS_NULL, RS_NULL],
             doc := ex_doc [ex_field ''price'' t INDEXFLD_T_NUMERIC]\<rparr>"
  by (auto simp: ctx_of_def ex_defs SetDocument_eval numeral_2_eq_2)















section \<open>Properties of the garbage collector\<close>

lemma NextGcNode_unfold:
  "NextGcNode heap g =
     (case next_with_range (gcIterator g) of
        Some (node, rest) \<Rightarrow> Done (node, g\<lparr>gcIterator := rest\<rparr>)
      | None \<Rightarrow>
          (case next_with_range (rt_nodes (heap (rt g))) of
             Some (node, rest) \<Rightarrow> Done (node, g\<lparr>gcIterator := rest\<rparr>)
           | None \<Rightarrow> Thrown ''Second iterator should return result''))"
  by (simp add: NextGcNode_def split: option.splits)

lemma append_numericGC_all:
  "\<forall>f \<in> set fs. nh_open host f \<noteq> None \<Longrightarrow>
     append_numericGC host heap fs acc
       = Done (acc @ map (\<lambda>f. NumericFieldGC_new heap (the (nh_open host f))) fs)"
  by (induction fs arbitrary: acc) auto

lemma append_numericGC_Done:
  "append_numericGC host heap fs acc = Done arr \<Longrightarrow>
     arr = acc @ map (\<lambda>f. NumericFieldGC_new heap (the (nh_open host f))) fs"
proof (induction fs arbitrary: acc)
  case Nil
  then show ?case by simp
next
  case (Cons f fs)
  from Cons.prems obtain q where q: "nh_open host f = Some q"
    by (cases "nh_open host f") auto
  with Cons.prems have "append_numericGC host heap fs (acc @ [NumericFieldGC_new heap q]) = Done arr"
    by simp
  from Cons.IH [OF this] q show ?case by simp
qed

lemmas gc_ex_defs = ex_storage_def ex_gc_def ex_tree_def ex_heap_def ex_pass_def ex_round_def
  ex_term_host_def ex_numeric_host_def ex_tag_host_def ex_gc_host_def ex_bounds_def
  GarbageCollector_new_def

lemmas gc_eval = CollectRandomTerm_def CollectNumericIndex_def CollectTagIndex_def
  sync_numericGC_def pick_numericGC_def NextGcNode_unfold NumericFieldGC_new_def
  updateStats_def collect_all_def PeriodicCallback_def OnDelete_def Let_def









section \<open>The claims about the ingest context\<close>

text \<open>
  C10. \<open>SetDocument\<close> clears only the flags INDEXABLES, TEXTINDEXED and OTHERINDEXED on
  entry, and it sets but never clears SORTABLES and EMPTY: a SORTABLES or EMPTY flag that
  an earlier call left on the context is still set after the call, whatever the new
  fields are, also after the second call that \<open>ReplaceMerge\<close> makes.
\<close>

theorem SetDocument_keeps_SORTABLES_EMPTY:
  "stateFlags (aCtx (SetDocument_enter ctx d)) =
     stateFlags ctx - {ACTX_F_INDEXABLES, ACTX_F_TEXTINDEXED, ACTX_F_OTHERINDEXED}
   \<and> (\<forall>x. x \<in> {ACTX_F_SORTABLES, ACTX_F_EMPTY} \<and> x \<in> stateFlags ctx \<longrightarrow>
          x \<in> stateFlags (fst (snd (SetDocument sp d n ctx)))
        \<and> x \<in> stateFlags (snd (ReplaceMerge sp (Some fs) ctx)))"
proof (intro conjI allI impI)
  show "stateFlags (aCtx (SetDocument_enter ctx d)) =
     stateFlags ctx - {ACTX_F_INDEXABLES, ACTX_F_TEXTINDEXED, ACTX_F_OTHERINDEXED}"
    by (rule enter_flags)
next
  fix x assume a: "x \<in> {ACTX_F_SORTABLES, ACTX_F_EMPTY} \<and> x \<in> stateFlags ctx"
  then have nx: "x \<notin> {ACTX_F_INDEXABLES, ACTX_F_TEXTINDEXED, ACTX_F_OTHERINDEXED}"
    by auto
  from a nx show "x \<in> stateFlags (fst (snd (SetDocument sp d n ctx)))"
    by (intro SetDocument_flags_kept) simp_all
  from a have "x \<in> stateFlags (ctx\<lparr>doc := (doc ctx)\<lparr>doc_fields := []\<rparr>\<rparr>)" by simp
  from SetDocument_flags_kept [OF this nx]
  show "x \<in> stateFlags (snd (ReplaceMerge sp (Some fs) ctx))"
    by (simp add: ReplaceMerge_def Let_def)
qed


theorem SetDocument_keeps_SORTABLES_EMPTY_witness:
  "ACTX_F_EMPTY \<in> {ACTX_F_SORTABLES, ACTX_F_EMPTY}
   \<and> ACTX_F_EMPTY \<in> stateFlags (new_ctx\<lparr>stateFlags := {ACTX_F_SORTABLES, ACTX_F_EMPTY}\<rparr>)
   \<and> ACTX_F_EMPTY \<in> stateFlags (fst (snd (SetDocument ex_spec
         (ex_doc [ex_field ''body'' ''hello'' 0]) 0
         (new_ctx\<lparr>stateFlags := {ACTX_F_SORTABLES, ACTX_F_EMPTY}\<rparr>))))
   \<and> ACTX_F_EMPTY \<in> stateFlags (snd (ReplaceMerge ex_spec
         (Some [ex_field ''body'' ''hello'' 0])
         (new_ctx\<lparr>stateFlags := {ACTX_F_SORTABLES, ACTX_F_EMPTY}\<rparr>)))
   \<and> has_text ex_spec (ex_doc [ex_field ''body'' ''hello'' 0])
   \<and> \<not> has_sortable ex_spec (ex_doc [ex_field ''body'' ''hello'' 0])"
proof -
  have h: "ACTX_F_EMPTY \<in> {ACTX_F_SORTABLES, ACTX_F_EMPTY}
      \<and> ACTX_F_EMPTY \<in> stateFlags (new_ctx\<lparr>stateFlags := {ACTX_F_SORTABLES, ACTX_F_EMPTY}\<rparr>)"
    by simp
  have t: "has_text ex_spec (ex_doc [ex_field ''body'' ''hello'' 0])
      \<and> \<not> has_sortable ex_spec (ex_doc [ex_field ''body'' ''hello'' 0])"
    by (simp add: has_text_def has_sortable_def is_text_field_def is_sortable_field_def
        resolve_field_def lookup_field_def IsIndexable_def IsSortable_def
        INDEXFLD_T_FULLTEXT_def ex_spec_def ex_body_def ex_field_def ex_doc_def)
  from SetDocument_keeps_SORTABLES_EMPTY
         [of "new_ctx\<lparr>stateFlags := {ACTX_F_SORTABLES, ACTX_F_EMPTY}\<rparr>"
             "ex_doc [ex_field ''body'' ''hello'' 0]" ex_spec 0
             "[ex_field ''body'' ''hello'' 0]"]
  have "ACTX_F_EMPTY \<in> {ACTX_F_SORTABLES, ACTX_F_EMPTY}
      \<and> ACTX_F_EMPTY \<in> stateFlags (new_ctx\<lparr>stateFlags := {ACTX_F_SORTABLES, ACTX_F_EMPTY}\<rparr>)
    \<longrightarrow> ACTX_F_EMPTY \<in> stateFlags (fst (snd (SetDocument ex_spec
         (ex_doc [ex_field ''body'' ''hello'' 0]) 0
         (new_ctx\<lparr>stateFlags := {ACTX_F_SORTABLES, ACTX_F_EMPTY}\<rparr>))))
      \<and> ACTX_F_EMPTY \<in> stateFlags (snd (ReplaceMerge ex_spec
         (Some [ex_field ''body'' ''hello'' 0])
         (new_ctx\<lparr>stateFlags := {ACTX_F_SORTABLES, ACTX_F_EMPTY}\<rparr>)))"
    by blast
  with h t show ?thesis by blast
qed


text \<open>
  C8, as amended. After a successful \<open>SetDocument\<close>: INDEXABLES is set iff a text or
  another indexable field is present, TEXTINDEXED iff no text field is, OTHERINDEXED iff
  no other field is; EMPTY is set iff it was set before the call or the sort vector is
  absent and there is neither a text nor another field; SORTABLES is set iff it was set
  before or a sortable field is present; NOBLOCK is as before. So the flags are a function
  of the schema, the document and what the context held before (its SORTABLES, EMPTY and
  NOBLOCK flags and its sort vector), not of the schema and the document alone. A second
  call on the resulting context and document succeeds and leaves the same flags.
\<close>

theorem SetDocument_flags_after_success:
  assumes "SetDocument sp d n ctx = (True, ctx', d')"
  shows "(ACTX_F_INDEXABLES \<in> stateFlags ctx' \<longleftrightarrow> has_text sp d \<or> has_other sp d)
       \<and> (ACTX_F_TEXTINDEXED \<in> stateFlags ctx' \<longleftrightarrow> \<not> has_text sp d)
       \<and> (ACTX_F_OTHERINDEXED \<in> stateFlags ctx' \<longleftrightarrow> \<not> has_other sp d)
       \<and> (ACTX_F_EMPTY \<in> stateFlags ctx' \<longleftrightarrow>
            ACTX_F_EMPTY \<in> stateFlags ctx
            \<or> (sv ctx' = None \<and> \<not> has_text sp d \<and> \<not> has_other sp d))
       \<and> (ACTX_F_SORTABLES \<in> stateFlags ctx' \<longleftrightarrow>
            ACTX_F_SORTABLES \<in> stateFlags ctx \<or> has_sortable sp d)
       \<and> (ACTX_F_NOBLOCK \<in> stateFlags ctx' \<longleftrightarrow> ACTX_F_NOBLOCK \<in> stateFlags ctx)
       \<and> (sv ctx' = None \<longleftrightarrow>
            sv ctx = None \<and> ACTX_F_SORTABLES \<notin> stateFlags ctx \<and> \<not> has_sortable sp d)
       \<and> fst (SetDocument sp d' m ctx')
       \<and> stateFlags (fst (snd (SetDocument sp d' m ctx'))) = stateFlags ctx'"
proof -
  note s = SetDocument_success [OF assms]
  note again = SetDocument_again [OF assms, of m]
  have sv': "sv ctx' = None \<longleftrightarrow>
            sv ctx = None \<and> ACTX_F_SORTABLES \<notin> stateFlags ctx \<and> \<not> has_sortable sp d"
    by (auto simp: s(3))
  have 1: "ACTX_F_INDEXABLES \<in> stateFlags ctx' \<longleftrightarrow> has_text sp d \<or> has_other sp d"
    unfolding s(2) by simp
  have 2: "ACTX_F_TEXTINDEXED \<in> stateFlags ctx' \<longleftrightarrow> \<not> has_text sp d"
    unfolding s(2) by simp
  have 3: "ACTX_F_OTHERINDEXED \<in> stateFlags ctx' \<longleftrightarrow> \<not> has_other sp d"
    unfolding s(2) by simp
  have 4: "ACTX_F_EMPTY \<in> stateFlags ctx' \<longleftrightarrow>
            ACTX_F_EMPTY \<in> stateFlags ctx
            \<or> (sv ctx' = None \<and> \<not> has_text sp d \<and> \<not> has_other sp d)"
    unfolding sv' unfolding s(2) by auto
  have 5: "ACTX_F_SORTABLES \<in> stateFlags ctx' \<longleftrightarrow>
            ACTX_F_SORTABLES \<in> stateFlags ctx \<or> has_sortable sp d"
    unfolding s(2) by auto
  have 6: "ACTX_F_NOBLOCK \<in> stateFlags ctx' \<longleftrightarrow> ACTX_F_NOBLOCK \<in> stateFlags ctx"
    unfolding s(2) by simp
  from 1 2 3 4 5 6 sv' again show ?thesis by blast
qed


text \<open>
  The claim as stated fails on a context that an earlier call left EMPTY: the call
  succeeds on a document with a text field, EMPTY is still set, and the flags differ from
  those the same call leaves on a new context.
\<close>

lemma ctx_after_empty_eq:
  "ctx_after_empty =
     new_ctx\<lparr>stateFlags := {ACTX_F_TEXTINDEXED, ACTX_F_OTHERINDEXED, ACTX_F_EMPTY},
             doc := ex_doc []\<rparr>"
  by (auto simp: ctx_after_empty_def ex_defs SetDocument_eval)

lemma body_call_on_empty:
  "SetDocument ex_spec (ex_doc [ex_field ''body'' ''hello'' 0]) 0 ctx_after_empty =
    (True,
     new_ctx\<lparr>stateFlags := {ACTX_F_INDEXABLES, ACTX_F_OTHERINDEXED, ACTX_F_EMPTY},
             fspecs := [ex_body],
             doc := ex_doc [ex_field ''body'' ''hello'' INDEXFLD_T_FULLTEXT]\<rparr>,
     ex_doc [ex_field ''body'' ''hello'' INDEXFLD_T_FULLTEXT])"
  unfolding ctx_after_empty_eq
  by (auto simp: ex_defs SetDocument_eval)

lemma body_call_on_new:
  "SetDocument ex_spec (ex_doc [ex_field ''body'' ''hello'' 0]) 0 new_ctx =
    (True,
     new_ctx\<lparr>stateFlags := {ACTX_F_INDEXABLES, ACTX_F_OTHERINDEXED},
             fspecs := [ex_body],
             doc := ex_doc [ex_field ''body'' ''hello'' INDEXFLD_T_FULLTEXT]\<rparr>,
     ex_doc [ex_field ''body'' ''hello'' INDEXFLD_T_FULLTEXT])"
  by (auto simp: ex_defs SetDocument_eval)

lemma body_is_text:
  "has_text ex_spec (ex_doc [ex_field ''body'' ''hello'' 0])"
  "\<not> has_sortable ex_spec (ex_doc [ex_field ''body'' ''hello'' 0])"
  by (simp_all add: field_eval ex_defs lookup_field_def IsIndexable_def IsSortable_def
      INDEXFLD_T_FULLTEXT_def)

theorem SetDocument_flags_not_pure_counterexample:
  "fst (SetDocument ex_spec (ex_doc [ex_field ''body'' ''hello'' 0]) 0 ctx_after_empty)
   \<and> ACTX_F_EMPTY \<in> stateFlags (fst (snd
        (SetDocument ex_spec (ex_doc [ex_field ''body'' ''hello'' 0]) 0 ctx_after_empty)))
   \<and> has_text ex_spec (ex_doc [ex_field ''body'' ''hello'' 0])
   \<and> stateFlags (fst (snd
        (SetDocument ex_spec (ex_doc [ex_field ''body'' ''hello'' 0]) 0 ctx_after_empty)))
      \<noteq> stateFlags (fst (snd
        (SetDocument ex_spec (ex_doc [ex_field ''body'' ''hello'' 0]) 0 new_ctx)))"
  unfolding body_call_on_empty body_call_on_new
  by (auto simp: body_is_text)

theorem SetDocument_flags_after_success_witness:
  "SetDocument ex_spec (ex_doc [ex_field ''body'' ''hello'' 0]) 0 new_ctx =
    (True,
     new_ctx\<lparr>stateFlags := {ACTX_F_INDEXABLES, ACTX_F_OTHERINDEXED},
             fspecs := [ex_body],
             doc := ex_doc [ex_field ''body'' ''hello'' INDEXFLD_T_FULLTEXT]\<rparr>,
     ex_doc [ex_field ''body'' ''hello'' INDEXFLD_T_FULLTEXT])
   \<and> has_text ex_spec (ex_doc [ex_field ''body'' ''hello'' 0])
   \<and> ACTX_F_INDEXABLES \<in> stateFlags
        (new_ctx\<lparr>stateFlags := {ACTX_F_INDEXABLES, ACTX_F_OTHERINDEXED},
             fspecs := [ex_body],
             doc := ex_doc [ex_field ''body'' ''hello'' INDEXFLD_T_FULLTEXT]\<rparr>)
   \<and> stateFlags (fst (snd (SetDocument ex_spec
          (ex_doc [ex_field ''body'' ''hello'' INDEXFLD_T_FULLTEXT]) 1
          (new_ctx\<lparr>stateFlags := {ACTX_F_INDEXABLES, ACTX_F_OTHERINDEXED},
             fspecs := [ex_body],
             doc := ex_doc [ex_field ''body'' ''hello'' INDEXFLD_T_FULLTEXT]\<rparr>))))
      = {ACTX_F_INDEXABLES, ACTX_F_OTHERINDEXED}"
  using SetDocument_flags_after_success [OF body_call_on_new, of 1] body_call_on_new body_is_text
  by simp


text \<open>
  C4, as amended. On a context without an error, a document in which two fields that
  carry text resolve to the same \<open>FieldSpec.index\<close> is rejected, with DUPFIELD or with
  UNSUPPTYPE. It is DUPFIELD, with the message \<open>Tried to insert `<name>` twice\<close> for the
  name of the schema field, when the repeated field is the first field that is rejected
  (no field before it is itself a repeat or asks for an index type outside its schema
  types); the call then returns at that field: the fields after it are not touched and no
  schema field is recorded for them.
\<close>

theorem SetDocument_duplicate_field:
  assumes "code (status ctx) = QUERY_OK"
  shows "(\<not> distinct (matched_indices sp (doc_fields d)) \<longrightarrow>
            \<not> fst (SetDocument sp d n ctx)
          \<and> code (status (fst (snd (SetDocument sp d n ctx))))
              \<in> {QUERY_EDUPFIELD, QUERY_EUNSUPPTYPE})
       \<and> (doc_fields d = pre @ g # rest \<and> accepts sp {} pre
            \<and> lookup_field sp g = Some fs \<and> fs_index fs \<in> set (matched_indices sp pre) \<longrightarrow>
            \<not> fst (SetDocument sp d n ctx)
          \<and> code (status (fst (snd (SetDocument sp d n ctx)))) = QUERY_EDUPFIELD
          \<and> detail (status (fst (snd (SetDocument sp d n ctx))))
              = Some (''Tried to insert `'' @ fs_name fs @ ''` twice'')
          \<and> doc_fields (snd (snd (SetDocument sp d n ctx)))
              = map (resolve_field sp) pre @ g # rest
          \<and> fspecs (fst (snd (SetDocument sp d n ctx)))
              = fspecs ctx @ map (spec_of_field sp) pre @ [fs])"
proof (intro conjI impI)
  assume nd: "\<not> distinct (matched_indices sp (doc_fields d))"
  with accepts_distinct [of sp "{}" "doc_fields d"]
  have na: "\<not> accepts sp {} (doc_fields d)" by blast
  then show nok: "\<not> fst (SetDocument sp d n ctx)" by (simp add: SetDocument_ok_iff)
  from SetDocument_failure_code [OF nok assms]
  show "code (status (fst (snd (SetDocument sp d n ctx))))
              \<in> {QUERY_EDUPFIELD, QUERY_EUNSUPPTYPE}" .
next
  assume h: "doc_fields d = pre @ g # rest \<and> accepts sp {} pre
            \<and> lookup_field sp g = Some fs \<and> fs_index fs \<in> set (matched_indices sp pre)"
  then have dec: "doc_fields d = pre @ g # rest" and pre: "accepts sp {} pre"
    and lk: "lookup_field sp g = Some fs"
    and dup: "fs_index fs \<in> set (matched_indices sp pre)" by simp_all
  from SetDocument_at_field [OF dec pre, of ctx n] obtain st1 where
    p: "SetDocument_fields sp pre (SetDocument_enter ctx d) = (True, st1)"
    and dd: "dedupe st1 = set (matched_indices sp pre)"
    and eq: "SetDocument sp d n ctx =
               (case SetDocument_field sp g rest st1 of
                  (ok, st2) \<Rightarrow>
                    if ok then SetDocument sp d n ctx
                    else (False, aCtx st2, d\<lparr>doc_fields := visited st2\<rparr>))"
    by blast
  from dup dd have "fs_index fs \<in> dedupe st1" by simp
  note step = field_dup [OF lk this, of rest]
  note s1 = fields_success_more [OF p, unfolded enter_facts]
  from eq have res: "SetDocument sp d n ctx =
      (False, (aCtx st1)\<lparr>fspecs := fspecs (aCtx st1) @ [fs],
                    status := SetErrorFmt (status (aCtx st1)) QUERY_EDUPFIELD
                                (msg_dupfield (fs_name fs))\<rparr>,
       d\<lparr>doc_fields := visited st1 @ g # rest\<rparr>)"
    by (simp add: step)
  show "\<not> fst (SetDocument sp d n ctx)" by (simp add: res)
  show "code (status (fst (snd (SetDocument sp d n ctx)))) = QUERY_EDUPFIELD"
    using assms by (simp add: res s1 SetErrorFmt_def)
  show "detail (status (fst (snd (SetDocument sp d n ctx))))
              = Some (''Tried to insert `'' @ fs_name fs @ ''` twice'')"
    using assms by (simp add: res s1 SetErrorFmt_def msg_dupfield_def)
  show "doc_fields (snd (snd (SetDocument sp d n ctx)))
              = map (resolve_field sp) pre @ g # rest"
    by (simp add: res s1)
  show "fspecs (fst (snd (SetDocument sp d n ctx)))
              = fspecs ctx @ map (spec_of_field sp) pre @ [fs]"
    by (simp add: res s1)
qed


text \<open>
  The claim as stated fails when an earlier check rejects the document first: here the
  first of two \<open>title\<close> fields asks to be indexed as GEO, and the error is UNSUPPTYPE.
\<close>

theorem SetDocument_duplicate_field_counterexample:
  "\<not> distinct (matched_indices ex_spec
        [ex_field ''title'' ''A'' INDEXFLD_T_GEO, ex_field ''title'' ''B'' 0])
   \<and> \<not> fst (SetDocument ex_spec
        (ex_doc [ex_field ''title'' ''A'' INDEXFLD_T_GEO, ex_field ''title'' ''B'' 0]) 0 new_ctx)
   \<and> code (status (fst (snd (SetDocument ex_spec
        (ex_doc [ex_field ''title'' ''A'' INDEXFLD_T_GEO, ex_field ''title'' ''B'' 0]) 0 new_ctx))))
      = QUERY_EUNSUPPTYPE"
  by (simp add: ex_defs SetDocument_eval field_eval)

theorem SetDocument_duplicate_field_witness:
  "code (status new_ctx) = QUERY_OK
   \<and> \<not> distinct (matched_indices ex_spec
         (doc_fields (ex_doc [ex_field ''title'' ''A'' 0, ex_field ''title'' ''B'' 0])))
   \<and> doc_fields (ex_doc [ex_field ''title'' ''A'' 0, ex_field ''title'' ''B'' 0])
       = [ex_field ''title'' ''A'' 0] @ ex_field ''title'' ''B'' 0 # []
   \<and> accepts ex_spec {} [ex_field ''title'' ''A'' 0]
   \<and> lookup_field ex_spec (ex_field ''title'' ''B'' 0) = Some ex_title
   \<and> fs_index ex_title \<in> set (matched_indices ex_spec [ex_field ''title'' ''A'' 0])
   \<and> \<not> fst (SetDocument ex_spec
        (ex_doc [ex_field ''title'' ''A'' 0, ex_field ''title'' ''B'' 0]) 0 new_ctx)
   \<and> code (status (fst (snd (SetDocument ex_spec
        (ex_doc [ex_field ''title'' ''A'' 0, ex_field ''title'' ''B'' 0]) 0 new_ctx))))
      = QUERY_EDUPFIELD
   \<and> detail (status (fst (snd (SetDocument ex_spec
        (ex_doc [ex_field ''title'' ''A'' 0, ex_field ''title'' ''B'' 0]) 0 new_ctx))))
      = Some ''Tried to insert `title` twice''"
proof -
  have h0: "code (status new_ctx) = QUERY_OK" by (simp add: new_ctx_def)
  have h1: "\<not> distinct (matched_indices ex_spec
         (doc_fields (ex_doc [ex_field ''title'' ''A'' 0, ex_field ''title'' ''B'' 0])))"
    by (simp add: ex_defs field_eval lookup_field_def)
  have h2: "doc_fields (ex_doc [ex_field ''title'' ''A'' 0, ex_field ''title'' ''B'' 0])
       = [ex_field ''title'' ''A'' 0] @ ex_field ''title'' ''B'' 0 # []
   \<and> accepts ex_spec {} [ex_field ''title'' ''A'' 0]
   \<and> lookup_field ex_spec (ex_field ''title'' ''B'' 0) = Some ex_title
   \<and> fs_index ex_title \<in> set (matched_indices ex_spec [ex_field ''title'' ''A'' 0])"
    by (simp add: ex_defs field_eval lookup_field_def)
  from SetDocument_duplicate_field [OF h0, of ex_spec
      "ex_doc [ex_field ''title'' ''A'' 0, ex_field ''title'' ''B'' 0]" 0
      "[ex_field ''title'' ''A'' 0]" "ex_field ''title'' ''B'' 0" "[]" ex_title] h1 h2
  have "\<not> fst (SetDocument ex_spec
        (ex_doc [ex_field ''title'' ''A'' 0, ex_field ''title'' ''B'' 0]) 0 new_ctx)
   \<and> code (status (fst (snd (SetDocument ex_spec
        (ex_doc [ex_field ''title'' ''A'' 0, ex_field ''title'' ''B'' 0]) 0 new_ctx))))
      = QUERY_EDUPFIELD
   \<and> detail (status (fst (snd (SetDocument ex_spec
        (ex_doc [ex_field ''title'' ''A'' 0, ex_field ''title'' ''B'' 0]) 0 new_ctx))))
      = Some (''Tried to insert `'' @ fs_name ex_title @ ''` twice'')"
    by blast
  with h0 h1 h2 show ?thesis by (simp add: ex_title_def)
qed

text \<open>
  C5, as amended. For a field that carries text and is matched to a schema field: when
  the caller left \<open>indexAs\<close> zero, \<open>SetDocument\<close> resolves it to \<open>fs.types\<close>; when the
  caller gave a nonzero \<open>indexAs\<close> that is not a subset of \<open>fs.types\<close>, the document is
  rejected, with UNSUPPTYPE when this field is the first one rejected and does not repeat
  an earlier field (a repeated field is rejected with DUPFIELD before its types are
  looked at). Hence in every accepted document the resolved \<open>indexAs\<close> of each such field
  is a subset of \<open>fs.types\<close>.
\<close>

theorem SetDocument_indexAs_resolution:
  assumes "code (status ctx) = QUERY_OK"
  shows "(fst (SetDocument sp d n ctx) \<longrightarrow>
            doc_fields (snd (snd (SetDocument sp d n ctx)))
              = map (resolve_field sp) (doc_fields d)
          \<and> (\<forall>f \<in> set (doc_fields d). \<forall>fs. lookup_field sp f = Some fs \<longrightarrow>
               (df_indexAs f \<noteq> 0 \<longrightarrow>
                  df_indexAs f AND fs_types fs = df_indexAs f
                  \<and> df_indexAs (resolve_field sp f) = df_indexAs f)
             \<and> (df_indexAs f = 0 \<longrightarrow> df_indexAs (resolve_field sp f) = fs_types fs)
             \<and> df_indexAs (resolve_field sp f) AND fs_types fs
                 = df_indexAs (resolve_field sp f)))
       \<and> ((\<exists>f \<in> set (doc_fields d). \<exists>fs. lookup_field sp f = Some fs
              \<and> df_indexAs f \<noteq> 0 \<and> df_indexAs f AND fs_types fs \<noteq> df_indexAs f) \<longrightarrow>
            \<not> fst (SetDocument sp d n ctx)
          \<and> code (status (fst (snd (SetDocument sp d n ctx))))
              \<in> {QUERY_EDUPFIELD, QUERY_EUNSUPPTYPE})
       \<and> (doc_fields d = pre @ g # rest \<and> accepts sp {} pre
            \<and> lookup_field sp g = Some gs \<and> fs_index gs \<notin> set (matched_indices sp pre)
            \<and> df_indexAs g \<noteq> 0 \<and> df_indexAs g AND fs_types gs \<noteq> df_indexAs g \<longrightarrow>
            \<not> fst (SetDocument sp d n ctx)
          \<and> code (status (fst (snd (SetDocument sp d n ctx)))) = QUERY_EUNSUPPTYPE
          \<and> detail (status (fst (snd (SetDocument sp d n ctx))))
              = Some (''Tried to index field '' @ fs_name gs
                      @ '' as type not specified in schema'')
          \<and> doc_fields (snd (snd (SetDocument sp d n ctx)))
              = map (resolve_field sp) pre @ g # rest)"
proof (intro conjI impI ballI allI)
  assume ok: "fst (SetDocument sp d n ctx)"
  then obtain ctx' d' where r: "SetDocument sp d n ctx = (True, ctx', d')"
    by (cases "SetDocument sp d n ctx") auto
  from SetDocument_success(1) [OF r] r
  show "doc_fields (snd (snd (SetDocument sp d n ctx)))
              = map (resolve_field sp) (doc_fields d)"
    by (simp add: resolve_doc_def)
  from ok have acc: "accepts sp {} (doc_fields d)" by (simp add: SetDocument_ok_iff)
  {
    fix f fs
    assume f: "f \<in> set (doc_fields d)" and lk: "lookup_field sp f = Some fs"
    note t = accepts_types [OF acc f lk]
    {
      assume "df_indexAs f \<noteq> 0"
      with t lk show "df_indexAs f AND fs_types fs = df_indexAs f"
        and "df_indexAs (resolve_field sp f) = df_indexAs f"
        by (simp_all add: resolve_field_def)
    }
    {
      assume "df_indexAs f = 0"
      with lk show "df_indexAs (resolve_field sp f) = fs_types fs"
        by (simp add: resolve_field_def)
    }
    from t lk show "df_indexAs (resolve_field sp f) AND fs_types fs
                 = df_indexAs (resolve_field sp f)"
      by (auto simp: resolve_field_def)
  }
next
  assume "\<exists>f \<in> set (doc_fields d). \<exists>fs. lookup_field sp f = Some fs
              \<and> df_indexAs f \<noteq> 0 \<and> df_indexAs f AND fs_types fs \<noteq> df_indexAs f"
  then obtain f fs where f: "f \<in> set (doc_fields d)" and lk: "lookup_field sp f = Some fs"
    and bad: "df_indexAs f \<noteq> 0" "df_indexAs f AND fs_types fs \<noteq> df_indexAs f" by blast
  have "\<not> accepts sp {} (doc_fields d)"
  proof
    assume "accepts sp {} (doc_fields d)"
    from accepts_types [OF this f lk] bad show False by simp
  qed
  then show nok: "\<not> fst (SetDocument sp d n ctx)" by (simp add: SetDocument_ok_iff)
  from SetDocument_failure_code [OF nok assms]
  show "code (status (fst (snd (SetDocument sp d n ctx))))
              \<in> {QUERY_EDUPFIELD, QUERY_EUNSUPPTYPE}" .
next
  assume h: "doc_fields d = pre @ g # rest \<and> accepts sp {} pre
            \<and> lookup_field sp g = Some gs \<and> fs_index gs \<notin> set (matched_indices sp pre)
            \<and> df_indexAs g \<noteq> 0 \<and> df_indexAs g AND fs_types gs \<noteq> df_indexAs g"
  then have dec: "doc_fields d = pre @ g # rest" and pre: "accepts sp {} pre"
    and lk: "lookup_field sp g = Some gs"
    and nd: "fs_index gs \<notin> set (matched_indices sp pre)"
    and bad: "df_indexAs g \<noteq> 0" "df_indexAs g AND fs_types gs \<noteq> df_indexAs g"
    by simp_all
  from SetDocument_at_field [OF dec pre, of ctx n] obtain st1 where
    p: "SetDocument_fields sp pre (SetDocument_enter ctx d) = (True, st1)"
    and dd: "dedupe st1 = set (matched_indices sp pre)"
    and eq: "SetDocument sp d n ctx =
               (case SetDocument_field sp g rest st1 of
                  (ok, st2) \<Rightarrow>
                    if ok then SetDocument sp d n ctx
                    else (False, aCtx st2, d\<lparr>doc_fields := visited st2\<rparr>))"
    by blast
  from nd dd have "fs_index gs \<notin> dedupe st1" by simp
  note step = field_badtype [OF lk this bad, of rest]
  note s1 = fields_success_more [OF p, unfolded enter_facts]
  from eq have res: "SetDocument sp d n ctx =
      (False, (aCtx st1)\<lparr>fspecs := fspecs (aCtx st1) @ [gs],
                    stateFlags := (if IsSortable gs
                                   then insert ACTX_F_SORTABLES (stateFlags (aCtx st1))
                                   else stateFlags (aCtx st1)),
                    status := SetErrorFmt (status (aCtx st1)) QUERY_EUNSUPPTYPE
                                (msg_unsupptype (fs_name gs))\<rparr>,
       d\<lparr>doc_fields := visited st1 @ g # rest\<rparr>)"
    by (simp add: step)
  show "\<not> fst (SetDocument sp d n ctx)" by (simp add: res)
  show "code (status (fst (snd (SetDocument sp d n ctx)))) = QUERY_EUNSUPPTYPE"
    using assms by (simp add: res s1 SetErrorFmt_def)
  show "detail (status (fst (snd (SetDocument sp d n ctx))))
              = Some (''Tried to index field '' @ fs_name gs
                      @ '' as type not specified in schema'')"
    using assms by (simp add: res s1 SetErrorFmt_def msg_unsupptype_def)
  show "doc_fields (snd (snd (SetDocument sp d n ctx)))
              = map (resolve_field sp) pre @ g # rest"
    by (simp add: res s1)
qed


text \<open>
  The claim as stated fails on a repeated field: the second \<open>title\<close> asks to be indexed
  as GEO, which the schema does not allow, and the document is rejected with DUPFIELD.
\<close>

theorem SetDocument_indexAs_resolution_counterexample:
  "lookup_field ex_spec (ex_field ''title'' ''B'' INDEXFLD_T_GEO) = Some ex_title
   \<and> df_indexAs (ex_field ''title'' ''B'' INDEXFLD_T_GEO) \<noteq> 0
   \<and> df_indexAs (ex_field ''title'' ''B'' INDEXFLD_T_GEO) AND fs_types ex_title
       \<noteq> df_indexAs (ex_field ''title'' ''B'' INDEXFLD_T_GEO)
   \<and> \<not> fst (SetDocument ex_spec
        (ex_doc [ex_field ''title'' ''A'' 0, ex_field ''title'' ''B'' INDEXFLD_T_GEO]) 0 new_ctx)
   \<and> code (status (fst (snd (SetDocument ex_spec
        (ex_doc [ex_field ''title'' ''A'' 0, ex_field ''title'' ''B'' INDEXFLD_T_GEO]) 0 new_ctx))))
      = QUERY_EDUPFIELD"
  by (simp add: ex_defs SetDocument_eval field_eval)

theorem SetDocument_indexAs_resolution_witness:
  "code (status new_ctx) = QUERY_OK
   \<and> fst (SetDocument ex_spec
        (ex_doc [ex_field ''title'' ''A'' 0, ex_field ''price'' ''9.99'' INDEXFLD_T_NUMERIC])
        0 new_ctx)
   \<and> doc_fields (snd (snd (SetDocument ex_spec
        (ex_doc [ex_field ''title'' ''A'' 0, ex_field ''price'' ''9.99'' INDEXFLD_T_NUMERIC])
        0 new_ctx)))
      = [ex_field ''title'' ''A'' INDEXFLD_T_FULLTEXT,
         ex_field ''price'' ''9.99'' INDEXFLD_T_NUMERIC]
   \<and> doc_fields (ex_doc [ex_field ''body'' ''x'' 0, ex_field ''title'' ''A'' INDEXFLD_T_GEO])
       = [ex_field ''body'' ''x'' 0] @ ex_field ''title'' ''A'' INDEXFLD_T_GEO # []
   \<and> accepts ex_spec {} [ex_field ''body'' ''x'' 0]
   \<and> lookup_field ex_spec (ex_field ''title'' ''A'' INDEXFLD_T_GEO) = Some ex_title
   \<and> fs_index ex_title \<notin> set (matched_indices ex_spec [ex_field ''body'' ''x'' 0])
   \<and> df_indexAs (ex_field ''title'' ''A'' INDEXFLD_T_GEO) \<noteq> 0
   \<and> df_indexAs (ex_field ''title'' ''A'' INDEXFLD_T_GEO) AND fs_types ex_title
       \<noteq> df_indexAs (ex_field ''title'' ''A'' INDEXFLD_T_GEO)
   \<and> code (status (fst (snd (SetDocument ex_spec
        (ex_doc [ex_field ''body'' ''x'' 0, ex_field ''title'' ''A'' INDEXFLD_T_GEO])
        0 new_ctx))))
      = QUERY_EUNSUPPTYPE
   \<and> detail (status (fst (snd (SetDocument ex_spec
        (ex_doc [ex_field ''body'' ''x'' 0, ex_field ''title'' ''A'' INDEXFLD_T_GEO])
        0 new_ctx))))
      = Some ''Tried to index field title as type not specified in schema''"
proof -
  have h0: "code (status new_ctx) = QUERY_OK" by (simp add: new_ctx_def)
  have h1: "fst (SetDocument ex_spec
        (ex_doc [ex_field ''title'' ''A'' 0, ex_field ''price'' ''9.99'' INDEXFLD_T_NUMERIC])
        0 new_ctx)"
    by (simp add: SetDocument_ok_iff ex_defs lookup_field_def INDEXFLD_T_NUMERIC_def)
  have r1: "map (resolve_field ex_spec)
        (doc_fields (ex_doc [ex_field ''title'' ''A'' 0,
                             ex_field ''price'' ''9.99'' INDEXFLD_T_NUMERIC]))
      = [ex_field ''title'' ''A'' INDEXFLD_T_FULLTEXT,
         ex_field ''price'' ''9.99'' INDEXFLD_T_NUMERIC]"
    by (simp add: ex_defs field_eval lookup_field_def INDEXFLD_T_NUMERIC_def)
  have h2: "doc_fields (ex_doc [ex_field ''body'' ''x'' 0, ex_field ''title'' ''A'' INDEXFLD_T_GEO])
       = [ex_field ''body'' ''x'' 0] @ ex_field ''title'' ''A'' INDEXFLD_T_GEO # []
   \<and> accepts ex_spec {} [ex_field ''body'' ''x'' 0]
   \<and> lookup_field ex_spec (ex_field ''title'' ''A'' INDEXFLD_T_GEO) = Some ex_title
   \<and> fs_index ex_title \<notin> set (matched_indices ex_spec [ex_field ''body'' ''x'' 0])
   \<and> df_indexAs (ex_field ''title'' ''A'' INDEXFLD_T_GEO) \<noteq> 0
   \<and> df_indexAs (ex_field ''title'' ''A'' INDEXFLD_T_GEO) AND fs_types ex_title
       \<noteq> df_indexAs (ex_field ''title'' ''A'' INDEXFLD_T_GEO)"
    by (simp add: ex_defs field_eval lookup_field_def INDEXFLD_T_GEO_def
        INDEXFLD_T_FULLTEXT_def)
  from SetDocument_indexAs_resolution [OF h0, of ex_spec
      "ex_doc [ex_field ''title'' ''A'' 0, ex_field ''price'' ''9.99'' INDEXFLD_T_NUMERIC]" 0]
    h1
  have a: "doc_fields (snd (snd (SetDocument ex_spec
        (ex_doc [ex_field ''title'' ''A'' 0, ex_field ''price'' ''9.99'' INDEXFLD_T_NUMERIC])
        0 new_ctx)))
      = map (resolve_field ex_spec)
        (doc_fields (ex_doc [ex_field ''title'' ''A'' 0,
                             ex_field ''price'' ''9.99'' INDEXFLD_T_NUMERIC]))"
    by blast
  from SetDocument_indexAs_resolution [OF h0, of ex_spec
      "ex_doc [ex_field ''body'' ''x'' 0, ex_field ''title'' ''A'' INDEXFLD_T_GEO]" 0
      "[ex_field ''body'' ''x'' 0]" "ex_field ''title'' ''A'' INDEXFLD_T_GEO" "[]" ex_title]
    h2
  have b: "code (status (fst (snd (SetDocument ex_spec
        (ex_doc [ex_field ''body'' ''x'' 0, ex_field ''title'' ''A'' INDEXFLD_T_GEO])
        0 new_ctx))))
      = QUERY_EUNSUPPTYPE
   \<and> detail (status (fst (snd (SetDocument ex_spec
        (ex_doc [ex_field ''body'' ''x'' 0, ex_field ''title'' ''A'' INDEXFLD_T_GEO])
        0 new_ctx))))
      = Some (''Tried to index field '' @ fs_name ex_title
                      @ '' as type not specified in schema'')"
    by blast
  from h0 h1 h2 a b r1 show ?thesis by (simp add: ex_title_def)
qed

section \<open>The claims about the preprocessors\<close>

text \<open>
  C7. The geo preprocessor splits the text of the field (the C string in its buffer) at
  the first space or comma: the part before it is the longitude, the part after it the
  latitude; a text with neither delimiter fails with the code GEOFORMAT.
\<close>

theorem GeoPreprocessor_split:
  assumes "df_text (doc_fields (doc ctx) ! i) = Some t"
    and "code (status ctx) = QUERY_OK"
  shows "(c_str t = lon @ d # lat \<and> d \<in> {CHR '' '', CHR '',''}
            \<and> CHR '' '' \<notin> set lon \<and> CHR '','' \<notin> set lon \<longrightarrow>
          (\<exists>ctx'. GeoPreprocessor fs h i ctx = Inr (True, ctx')
             \<and> geoSlon (fdatas ctx' i) = Some lon
             \<and> geoSlat (fdatas ctx' i) = Some lat
             \<and> status ctx' = status ctx))
       \<and> (CHR '' '' \<notin> set (c_str t) \<and> CHR '','' \<notin> set (c_str t) \<longrightarrow>
          GeoPreprocessor fs h i ctx
            = Inr (False, ctx\<lparr>status := (status ctx)\<lparr>code := QUERY_EGEOFORMAT\<rparr>\<rparr>))"
proof (intro conjI impI)
  assume h: "c_str t = lon @ d # lat \<and> d \<in> {CHR '' '', CHR '',''}
            \<and> CHR '' '' \<notin> set lon \<and> CHR '','' \<notin> set lon"
  then have c: "c_str t = lon @ d # lat" by simp
  from h have "strpbrk (c_str t) '' ,'' = Some (length lon)"
    by (subst c, intro strpbrk_found) auto
  with assms(1) geo_split_buffer [OF c]
  show "\<exists>ctx'. GeoPreprocessor fs h i ctx = Inr (True, ctx')
             \<and> geoSlon (fdatas ctx' i) = Some lon
             \<and> geoSlat (fdatas ctx' i) = Some lat
             \<and> status ctx' = status ctx"
    by (simp add: GeoPreprocessor_def Let_def)
next
  assume "CHR '' '' \<notin> set (c_str t) \<and> CHR '','' \<notin> set (c_str t)"
  then have "strpbrk (c_str t) '' ,'' = None"
    by (intro strpbrk_none) auto
  with assms show "GeoPreprocessor fs h i ctx
            = Inr (False, ctx\<lparr>status := (status ctx)\<lparr>code := QUERY_EGEOFORMAT\<rparr>\<rparr>)"
    by (simp add: GeoPreprocessor_def SetCode_def)
qed


theorem GeoPreprocessor_split_witness:
  "(\<exists>ctx'. GeoPreprocessor ex_loc ex_host 0 (ctx_of [ex_field ''loc'' ''40.7,-74.0'' 0])
             = Inr (True, ctx')
        \<and> geoSlon (fdatas ctx' 0) = Some ''40.7''
        \<and> geoSlat (fdatas ctx' 0) = Some ''-74.0'')
   \<and> (\<exists>ctx'. GeoPreprocessor ex_loc ex_host 0 (ctx_of [ex_field ''loc'' ''40.7 -74.0'' 0])
             = Inr (True, ctx')
        \<and> geoSlon (fdatas ctx' 0) = Some ''40.7''
        \<and> geoSlat (fdatas ctx' 0) = Some ''-74.0'')
   \<and> (\<exists>ctx'. GeoPreprocessor ex_loc ex_host 0 (ctx_of [ex_field ''loc'' ''40.7'' 0])
             = Inr (False, ctx')
        \<and> code (status ctx') = QUERY_EGEOFORMAT)"
proof -
  have t: "\<And>t. df_text (doc_fields (doc (ctx_of [ex_field ''loc'' t 0])) ! 0) = Some t"
    and s: "\<And>t. code (status (ctx_of [ex_field ''loc'' t 0])) = QUERY_OK"
    unfolding ctx_of_loc by (simp_all add: ex_doc_def ex_field_def new_ctx_def)
  have c1: "c_str ''40.7,-74.0'' = ''40.7'' @ CHR '','' # ''-74.0''"
    and c2: "c_str ''40.7 -74.0'' = ''40.7'' @ CHR '' '' # ''-74.0''"
    and c3: "CHR '' '' \<notin> set (c_str ''40.7'') \<and> CHR '','' \<notin> set (c_str ''40.7'')"
    by (simp_all add: c_str_def)
  from GeoPreprocessor_split [OF t s, of "''40.7,-74.0''" "''40.7''" "CHR '',''" "''-74.0''"
      ex_loc ex_host] c1
  have 1: "\<exists>ctx'. GeoPreprocessor ex_loc ex_host 0 (ctx_of [ex_field ''loc'' ''40.7,-74.0'' 0])
             = Inr (True, ctx')
        \<and> geoSlon (fdatas ctx' 0) = Some ''40.7''
        \<and> geoSlat (fdatas ctx' 0) = Some ''-74.0''"
    by auto
  from GeoPreprocessor_split [OF t s, of "''40.7 -74.0''" "''40.7''" "CHR '' ''" "''-74.0''"
      ex_loc ex_host] c2
  have 2: "\<exists>ctx'. GeoPreprocessor ex_loc ex_host 0 (ctx_of [ex_field ''loc'' ''40.7 -74.0'' 0])
             = Inr (True, ctx')
        \<and> geoSlon (fdatas ctx' 0) = Some ''40.7''
        \<and> geoSlat (fdatas ctx' 0) = Some ''-74.0''"
    by auto
  from GeoPreprocessor_split [OF t s, of "''40.7''" "[]" "CHR '',''" "[]" ex_loc ex_host] c3
  have 3: "\<exists>ctx'. GeoPreprocessor ex_loc ex_host 0 (ctx_of [ex_field ''loc'' ''40.7'' 0])
             = Inr (False, ctx')
        \<and> code (status ctx') = QUERY_EGEOFORMAT"
    by simp
  from 1 2 3 show ?thesis by blast
qed

text \<open>
  C6. For a numeric field that is sortable, on a context that has its sorting vector: when
  the host parses the text (as it does \<open>42.5\<close> for the text "42.5"), the preprocessor
  succeeds and the slot \<open>sortIdx\<close> of the sorting vector then holds \<open>NUM\<close> of that
  number, the other slots as before; when the host does not parse the text, it fails with
  the code NOTNUMERIC and changes nothing but the status: no slot is written.
\<close>

theorem NumericPreprocessor_sortable:
  assumes "IsSortable fs"
    and "df_text (doc_fields (doc ctx) ! i) = Some t"
    and "sv ctx = Some v"
    and "fs_sortIdx fs < length v"
    and "code (status ctx) = QUERY_OK"
  shows "(StringToDouble h t = Some x \<longrightarrow>
          (\<exists>ctx'. NumericPreprocessor fs h i ctx = Inr (True, ctx')
             \<and> sv ctx' = Some (v[fs_sortIdx fs := RS_SORTABLE_NUM x])
             \<and> the (sv ctx') ! fs_sortIdx fs = RS_SORTABLE_NUM x
             \<and> numeric (fdatas ctx' i) = Some x
             \<and> status ctx' = status ctx))
       \<and> (StringToDouble h t = None \<longrightarrow>
          NumericPreprocessor fs h i ctx
            = Inr (False, ctx\<lparr>status := (status ctx)\<lparr>code := QUERY_ENOTNUMERIC\<rparr>\<rparr>)
          \<and> sv (ctx\<lparr>status := (status ctx)\<lparr>code := QUERY_ENOTNUMERIC\<rparr>\<rparr>) = sv ctx)"
  using assms
  by (simp add: NumericPreprocessor_def sv_Put_def Let_def Put_def SetCode_def)

theorem NumericPreprocessor_sortable_witness:
  "IsSortable ex_price
   \<and> sv (ctx_of [ex_field ''price'' ''42.5'' 0]) = Some [RS_NULL, RS_NULL]
   \<and> StringToDouble ex_host ''42.5'' = Some (85 / 2)
   \<and> (\<exists>ctx'. NumericPreprocessor ex_price ex_host 0 (ctx_of [ex_field ''price'' ''42.5'' 0])
               = Inr (True, ctx')
         \<and> the (sv ctx') ! fs_sortIdx ex_price = RS_SORTABLE_NUM (85 / 2))
   \<and> StringToDouble ex_host ''not-a-number'' = None
   \<and> (\<exists>ctx'. NumericPreprocessor ex_price ex_host 0
                 (ctx_of [ex_field ''price'' ''not-a-number'' 0]) = Inr (False, ctx')
         \<and> code (status ctx') = QUERY_ENOTNUMERIC
         \<and> sv ctx' = sv (ctx_of [ex_field ''price'' ''not-a-number'' 0]))"
proof -
  have a: "IsSortable ex_price" by (simp add: IsSortable_def ex_price_def)
  have t: "\<And>t. df_text (doc_fields (doc (ctx_of [ex_field ''price'' t 0])) ! 0) = Some t"
    and v: "\<And>t. sv (ctx_of [ex_field ''price'' t 0]) = Some [RS_NULL, RS_NULL]"
    and s: "\<And>t. code (status (ctx_of [ex_field ''price'' t 0])) = QUERY_OK"
    unfolding ctx_of_price by (simp_all add: ex_doc_def ex_field_def new_ctx_def)
  have l: "fs_sortIdx ex_price < length [RS_NULL, RS_NULL :: rat RSSortValue]"
    by (simp add: ex_price_def)
  have p1: "StringToDouble ex_host ''42.5'' = Some (85 / 2)"
    and p2: "StringToDouble ex_host ''not-a-number'' = None"
    by (simp_all add: ex_host_def)
  from NumericPreprocessor_sortable [OF a t v l s, of ex_host "''42.5''" "85 / 2"] p1
  have 1: "\<exists>ctx'. NumericPreprocessor ex_price ex_host 0 (ctx_of [ex_field ''price'' ''42.5'' 0])
               = Inr (True, ctx')
         \<and> the (sv ctx') ! fs_sortIdx ex_price = RS_SORTABLE_NUM (85 / 2)"
    by auto
  from NumericPreprocessor_sortable [OF a t v l s, of ex_host "''not-a-number''"] p2
  have 2: "\<exists>ctx'. NumericPreprocessor ex_price ex_host 0
                 (ctx_of [ex_field ''price'' ''not-a-number'' 0]) = Inr (False, ctx')
         \<and> code (status ctx') = QUERY_ENOTNUMERIC
         \<and> sv ctx' = sv (ctx_of [ex_field ''price'' ''not-a-number'' 0])"
    by simp
  from a v p1 p2 1 2 show ?thesis by blast
qed





section \<open>The claims about the garbage collector\<close>

text \<open>
  C9, as amended. (a) \<open>NextGcNode\<close> returns the next node with a range of the iterator;
  when the iterator is exhausted it is started again from the root once, and when this
  second iteration yields no node with a range either the call throws (it never iterates
  a third time, and it always ends). (b) On a pass whose spec is still the collector's
  and has a numeric field: when the number of numeric fields is smaller than the cached
  array, \<open>CollectNumericIndex\<close> throws "it is not possible to remove fields"; when it
  is the same, the cached array is kept; only when it is larger is the array built
  again, one entry per field. A spec with no numeric field ends the pass before this
  check, whatever the cached array holds.
\<close>

theorem numeric_gc_guards:
  "NextGcNode heap g =
     (case next_with_range (gcIterator g) of
        Some (node, rest) \<Rightarrow> Done (node, g\<lparr>gcIterator := rest\<rparr>)
      | None \<Rightarrow>
          (case next_with_range (rt_nodes (heap (rt g))) of
             Some (node, rest) \<Rightarrow> Done (node, g\<lparr>gcIterator := rest\<rparr>)
           | None \<Rightarrow> Thrown ''Second iterator should return result''))
   \<and> (nh_uniqueId host = specUniqueId (collector p) \<and> nh_numericFields host \<noteq> []
        \<and> length (nh_numericFields host) < length (numericGC (collector p)) \<longrightarrow>
        CollectNumericIndex host p = Thrown ''it is not possible to remove fields'')
   \<and> sync_numericGC host heap cached =
        (if length (nh_numericFields host) = length cached then Done cached
         else if length (nh_numericFields host) < length cached
           then Thrown ''it is not possible to remove fields''
         else append_numericGC host heap (nh_numericFields host) [])
   \<and> (append_numericGC host heap (nh_numericFields host) [] = Done arr \<longrightarrow>
        arr = map (\<lambda>f. NumericFieldGC_new heap (the (nh_open host f))) (nh_numericFields host))"
proof (intro conjI impI)
  show "NextGcNode heap g =
     (case next_with_range (gcIterator g) of
        Some (node, rest) \<Rightarrow> Done (node, g\<lparr>gcIterator := rest\<rparr>)
      | None \<Rightarrow>
          (case next_with_range (rt_nodes (heap (rt g))) of
             Some (node, rest) \<Rightarrow> Done (node, g\<lparr>gcIterator := rest\<rparr>)
           | None \<Rightarrow> Thrown ''Second iterator should return result''))"
    by (rule NextGcNode_unfold)
next
  assume "nh_uniqueId host = specUniqueId (collector p) \<and> nh_numericFields host \<noteq> []
        \<and> length (nh_numericFields host) < length (numericGC (collector p))"
  then show "CollectNumericIndex host p = Thrown ''it is not possible to remove fields''"
    by (simp add: CollectNumericIndex_def sync_numericGC_def)
next
  show "sync_numericGC host heap cached =
        (if length (nh_numericFields host) = length cached then Done cached
         else if length (nh_numericFields host) < length cached
           then Thrown ''it is not possible to remove fields''
         else append_numericGC host heap (nh_numericFields host) [])"
    by (simp add: sync_numericGC_def)
next
  assume "append_numericGC host heap (nh_numericFields host) [] = Done arr"
  from append_numericGC_Done [OF this]
  show "arr = map (\<lambda>f. NumericFieldGC_new heap (the (nh_open host f))) (nh_numericFields host)"
    by simp
qed


text \<open>
  The claim as stated fails for a spec that has lost all its numeric fields: the count 0
  is smaller than the cached array, and the pass ends without the assertion.
\<close>

theorem numeric_gc_guards_counterexample:
  "nh_uniqueId (ex_numeric_host 9 []) = specUniqueId (collector
         (ex_pass (ex_gc\<lparr>numericGC := [NumericFieldGC_new ex_heap 0]\<rparr>)))
   \<and> length (nh_numericFields (ex_numeric_host 9 []))
       < length (numericGC (collector
           (ex_pass (ex_gc\<lparr>numericGC := [NumericFieldGC_new ex_heap 0]\<rparr>))))
   \<and> CollectNumericIndex (ex_numeric_host 9 [])
         (ex_pass (ex_gc\<lparr>numericGC := [NumericFieldGC_new ex_heap 0]\<rparr>))
       = Done (ex_pass (ex_gc\<lparr>numericGC := [NumericFieldGC_new ex_heap 0]\<rparr>))"
  by (simp add: gc_ex_defs gc_eval)

theorem numeric_gc_guards_witness:
  "nh_uniqueId (ex_numeric_host 9 [''price'']) = specUniqueId (collector
         (ex_pass (ex_gc\<lparr>numericGC := [NumericFieldGC_new ex_heap 0,
                                         NumericFieldGC_new ex_heap 1]\<rparr>)))
   \<and> nh_numericFields (ex_numeric_host 9 [''price'']) \<noteq> []
   \<and> length (nh_numericFields (ex_numeric_host 9 [''price'']))
       < length (numericGC (collector
           (ex_pass (ex_gc\<lparr>numericGC := [NumericFieldGC_new ex_heap 0,
                                           NumericFieldGC_new ex_heap 1]\<rparr>))))
   \<and> CollectNumericIndex (ex_numeric_host 9 [''price''])
         (ex_pass (ex_gc\<lparr>numericGC := [NumericFieldGC_new ex_heap 0,
                                         NumericFieldGC_new ex_heap 1]\<rparr>))
       = Thrown ''it is not possible to remove fields''
   \<and> append_numericGC (ex_numeric_host 9 [''price'', ''size'']) ex_heap
         (nh_numericFields (ex_numeric_host 9 [''price'', ''size''])) []
       = Done [NumericFieldGC_new ex_heap 0, NumericFieldGC_new ex_heap 0]
   \<and> NextGcNode ex_heap (NumericFieldGC_new ex_heap 0)
       = Done (\<lparr>nr_range = Some 0\<rparr>, (NumericFieldGC_new ex_heap 0)\<lparr>gcIterator := []\<rparr>)
   \<and> NextGcNode ex_heap ((NumericFieldGC_new ex_heap 0)\<lparr>gcIterator := []\<rparr>)
       = Done (\<lparr>nr_range = Some 0\<rparr>, (NumericFieldGC_new ex_heap 0)\<lparr>gcIterator := []\<rparr>)
   \<and> NextGcNode (\<lambda>p. ex_tree\<lparr>rt_nodes := [\<lparr>nr_range = None\<rparr>]\<rparr>)
         (NumericFieldGC_new ex_heap 0\<lparr>gcIterator := []\<rparr>)
       = Thrown ''Second iterator should return result''"
proof -
  have h: "nh_uniqueId (ex_numeric_host 9 [''price'']) = specUniqueId (collector
         (ex_pass (ex_gc\<lparr>numericGC := [NumericFieldGC_new ex_heap 0,
                                         NumericFieldGC_new ex_heap 1]\<rparr>)))
   \<and> nh_numericFields (ex_numeric_host 9 [''price'']) \<noteq> []
   \<and> length (nh_numericFields (ex_numeric_host 9 [''price'']))
       < length (numericGC (collector
           (ex_pass (ex_gc\<lparr>numericGC := [NumericFieldGC_new ex_heap 0,
                                           NumericFieldGC_new ex_heap 1]\<rparr>))))"
    by (simp add: gc_ex_defs)
  have a: "append_numericGC (ex_numeric_host 9 [''price'', ''size'']) ex_heap
         (nh_numericFields (ex_numeric_host 9 [''price'', ''size''])) []
       = Done [NumericFieldGC_new ex_heap 0, NumericFieldGC_new ex_heap 0]"
    by (simp add: ex_numeric_host_def)
  note g = numeric_gc_guards [of ex_heap "NumericFieldGC_new ex_heap 0"
      "ex_numeric_host 9 [''price'']"
      "ex_pass (ex_gc\<lparr>numericGC := [NumericFieldGC_new ex_heap 0,
                                     NumericFieldGC_new ex_heap 1]\<rparr>)"]
  from g h have t: "CollectNumericIndex (ex_numeric_host 9 [''price''])
         (ex_pass (ex_gc\<lparr>numericGC := [NumericFieldGC_new ex_heap 0,
                                         NumericFieldGC_new ex_heap 1]\<rparr>))
       = Thrown ''it is not possible to remove fields''"
    by blast
  have n1: "NextGcNode ex_heap (NumericFieldGC_new ex_heap 0)
       = Done (\<lparr>nr_range = Some 0\<rparr>, (NumericFieldGC_new ex_heap 0)\<lparr>gcIterator := []\<rparr>)"
    and n2: "NextGcNode ex_heap ((NumericFieldGC_new ex_heap 0)\<lparr>gcIterator := []\<rparr>)
       = Done (\<lparr>nr_range = Some 0\<rparr>, (NumericFieldGC_new ex_heap 0)\<lparr>gcIterator := []\<rparr>)"
    and n3: "NextGcNode (\<lambda>p. ex_tree\<lparr>rt_nodes := [\<lparr>nr_range = None\<rparr>]\<rparr>)
         (NumericFieldGC_new ex_heap 0\<lparr>gcIterator := []\<rparr>)
       = Thrown ''Second iterator should return result''"
    by (simp_all add: NextGcNode_unfold NumericFieldGC_new_def ex_heap_def ex_tree_def)
  from h a t n1 n2 n3 show ?thesis by blast
qed





text \<open>
  C2 does not hold on the code. The constructor never stores the \<open>uniqueId\<close> it is
  given: the member keeps what the storage held (here 9, for a collector constructed for
  the spec 7). A pass on the spec 9, the one that replaced the collector's, finds nothing
  wrong at its entry or at its yield, repairs twice and reports the status OK; a pass on
  the spec 7, the collector's own, reports INVALID at its entry.
\<close>

theorem GarbageCollector_new_loses_specUniqueId:
  "specUniqueId (GarbageCollector_new this k initialHZ u) = specUniqueId this
   \<and> specUniqueId ex_gc = 9
   \<and> (\<exists>p. CollectRandomTerm (ex_term_host 9 [ex_round 1 1 9, ex_round 0 2 9]) (ex_pass ex_gc)
              = Done p
          \<and> pass_status p = SPEC_STATUS_OK \<and> repairs p = 2 \<and> totalRemoved p = 3)
   \<and> CollectRandomTerm (ex_term_host 7 [ex_round 1 1 7, ex_round 0 2 7]) (ex_pass ex_gc)
       = Done ((ex_pass ex_gc)\<lparr>pass_status := SPEC_STATUS_INVALID\<rparr>)"
  by (simp add: gc_eval gc_ex_defs)

end
